theory Spec2Isabelle
  imports Complex_Main "HOL-Library.Sublist" "HOL-Library.Log_Nat"
begin

section \<open>JavaScript values as they reach the dashboard script\<close>

text \<open>
  A value obtained from \<^verbatim>\<open>res.json()\<close> or read off a parsed object.  An object is the list
  of its own properties in \<^verbatim>\<open>Object.keys\<close> order (keys are distinct in a real object, and
  \<^verbatim>\<open>obj[k]\<close> is the lookup in that list); an array is the list of its elements.
  \<^verbatim>\<open>JUndefined\<close> is what reading a missing property gives.  A string is a list of
  characters, its \<^verbatim>\<open>length\<close> the length of the list.  A number carries the exact
  value of the double it stands for.
\<close>

datatype json =
    JUndefined
  | JNull
  | JBool bool
  | JNum rat
  | JStr string
  | JArr "json list"
  | JObj "(string \<times> json) list"

text \<open>\<^verbatim>\<open>obj[k]\<close> on a value that is neither null nor undefined.\<close>

fun getProp :: "json \<Rightarrow> string \<Rightarrow> json" where
  "getProp (JObj kvs) k = (case map_of kvs k of Some v \<Rightarrow> v | None \<Rightarrow> JUndefined)"
| "getProp _ k = JUndefined"

text \<open>\<^verbatim>\<open>v && typeof v === 'object'\<close>: objects and arrays, not null.\<close>

fun isObjectLike :: "json \<Rightarrow> bool" where
  "isObjectLike (JObj _) = True"
| "isObjectLike (JArr _) = True"
| "isObjectLike _ = False"

section \<open>QR extraction (script.js, extractQrFrom)\<close>

definition qrKeys :: "string list" where
  "qrKeys = [''qrcode'', ''qrCode'', ''qr_code'', ''qrbase64'', ''qrBase64'', ''code'',
             ''imageUrl'', ''image_url'', ''dataUrl'', ''data_url'']"

text \<open>The first loop: \<^verbatim>\<open>for (const k of keys) { const v = obj[k];
  if (typeof v === 'string' && v.length > 5) return v; }\<close>\<close>

fun directQr :: "json \<Rightarrow> string list \<Rightarrow> string option" where
  "directQr obj [] = None"
| "directQr obj (k # ks) =
     (case getProp obj k of
        JStr v \<Rightarrow> if length v > 5 then Some v else directQr obj ks
      | _ \<Rightarrow> directQr obj ks)"

text \<open>
  The whole function.  The second loop runs over \<^verbatim>\<open>Object.keys(obj)\<close>: the properties of
  an object, the elements of an array; \<^verbatim>\<open>if (found) return found\<close> tests the result for
  truthiness, that is for a non-empty string.
\<close>

fun extractQrFrom :: "json \<Rightarrow> string option"
  and extractQrFields :: "(string \<times> json) list \<Rightarrow> string option"
  and extractQrElems :: "json list \<Rightarrow> string option" where
  "extractQrFrom (JObj kvs) =
     (case directQr (JObj kvs) qrKeys of Some v \<Rightarrow> Some v | None \<Rightarrow> extractQrFields kvs)"
| "extractQrFrom (JArr vs) =
     (case directQr (JArr vs) qrKeys of Some v \<Rightarrow> Some v | None \<Rightarrow> extractQrElems vs)"
| "extractQrFrom JUndefined = None"
| "extractQrFrom JNull = None"
| "extractQrFrom (JBool b) = None"
| "extractQrFrom (JNum n) = None"
| "extractQrFrom (JStr s) = None"
| "extractQrFields [] = None"
| "extractQrFields (kv # rest) =
     (case (if isObjectLike (snd kv) then extractQrFrom (snd kv) else None) of
        Some found \<Rightarrow> if found \<noteq> [] then Some found else extractQrFields rest
      | None \<Rightarrow> extractQrFields rest)"
| "extractQrElems [] = None"
| "extractQrElems (v # rest) =
     (case (if isObjectLike v then extractQrFrom v else None) of
        Some found \<Rightarrow> if found \<noteq> [] then Some found else extractQrElems rest
      | None \<Rightarrow> extractQrElems rest)"

text \<open>The first result of a sequence of attempts, as a loop with an early return gives it.\<close>

fun firstSome :: "'a option list \<Rightarrow> 'a option" where
  "firstSome [] = None"
| "firstSome (x # xs) = (case x of Some v \<Rightarrow> Some v | None \<Rightarrow> firstSome xs)"

text \<open>The values \<^verbatim>\<open>obj[k]\<close> for \<^verbatim>\<open>k\<close> in \<^verbatim>\<open>Object.keys(obj)\<close>.\<close>

fun children :: "json \<Rightarrow> json list" where
  "children (JObj kvs) = map snd kvs"
| "children (JArr vs) = vs"
| "children _ = []"

text \<open>
  The search as the specification words it, for comparison with the code: the key names are
  looked up on the object itself and, below it, down to a fixed number of levels of nesting
  (\<open>extractQrUpTo 1\<close> is "direct and one level of nesting").
\<close>

fun extractQrUpTo :: "nat \<Rightarrow> json \<Rightarrow> string option" where
  "extractQrUpTo 0 obj = (if isObjectLike obj then directQr obj qrKeys else None)"
| "extractQrUpTo (Suc d) obj =
     (if \<not> isObjectLike obj then None
      else case directQr obj qrKeys of
        Some v \<Rightarrow> Some v
      | None \<Rightarrow> firstSome (map (extractQrUpTo d) (filter isObjectLike (children obj))))"

text \<open>Every object or array inside a value, the value itself first, in depth-first order.\<close>

fun subObjects :: "json \<Rightarrow> json list"
  and subObjectsFields :: "(string \<times> json) list \<Rightarrow> json list"
  and subObjectsElems :: "json list \<Rightarrow> json list" where
  "subObjects (JObj kvs) = JObj kvs # subObjectsFields kvs"
| "subObjects (JArr vs) = JArr vs # subObjectsElems vs"
| "subObjects JUndefined = []"
| "subObjects JNull = []"
| "subObjects (JBool b) = []"
| "subObjects (JNum n) = []"
| "subObjects (JStr s) = []"
| "subObjectsFields [] = []"
| "subObjectsFields (kv # rest) = subObjects (snd kv) @ subObjectsFields rest"
| "subObjectsElems [] = []"
| "subObjectsElems (v # rest) = subObjects v @ subObjectsElems rest"

text \<open>How many levels of objects or arrays lie below a value.\<close>

fun nesting :: "json \<Rightarrow> nat"
  and nestingFields :: "(string \<times> json) list \<Rightarrow> nat"
  and nestingElems :: "json list \<Rightarrow> nat" where
  "nesting (JObj kvs) = nestingFields kvs"
| "nesting (JArr vs) = nestingElems vs"
| "nesting JUndefined = 0"
| "nesting JNull = 0"
| "nesting (JBool b) = 0"
| "nesting (JNum n) = 0"
| "nesting (JStr s) = 0"
| "nestingFields [] = 0"
| "nestingFields (kv # rest) =
     max (if isObjectLike (snd kv) then Suc (nesting (snd kv)) else 0) (nestingFields rest)"
| "nestingElems [] = 0"
| "nestingElems (v # rest) =
     max (if isObjectLike v then Suc (nesting v) else 0) (nestingElems rest)"

text \<open>A response whose QR string sits two levels below the top.\<close>

definition ex3 :: json where
  "ex3 = JObj [(''a'', JObj [(''b'', JObj [(''qrcode'', JStr ''abcdef'')])])]"


subsection \<open>What the search returns\<close>

lemma firstSome_append:
  "firstSome (xs @ ys) = (case firstSome xs of Some v \<Rightarrow> Some v | None \<Rightarrow> firstSome ys)"
  by (induction xs) (auto split: option.splits)

lemma directQr_long: "directQr obj ks = Some v \<Longrightarrow> 5 < length v \<and> (\<exists>k \<in> set ks. getProp obj k = JStr v)"
  by (induction ks) (auto split: json.splits if_splits)

lemma extractQr_nonempty:
  "extractQrFrom j = Some s \<Longrightarrow> 5 < length s"
  "extractQrFields kvs = Some s \<Longrightarrow> 5 < length s"
  "extractQrElems vs = Some s \<Longrightarrow> 5 < length s"
  by (induction j and kvs and vs arbitrary: s and s and s rule: extractQrFrom_extractQrFields_extractQrElems.induct)
     (auto split: option.splits if_splits dest: directQr_long)

lemma subObjects_notObj: "\<not> isObjectLike v \<Longrightarrow> subObjects v = []"
  by (cases v) auto

lemma extractQr_dfs:
  "extractQrFrom j = firstSome (map (\<lambda>ob. directQr ob qrKeys) (subObjects j))"
  "extractQrFields kvs = firstSome (map (\<lambda>ob. directQr ob qrKeys) (subObjectsFields kvs))"
  "extractQrElems vs = firstSome (map (\<lambda>ob. directQr ob qrKeys) (subObjectsElems vs))"
proof (induction j and kvs and vs rule: extractQrFrom_extractQrFields_extractQrElems.induct)
  case (9 kv rest)
  then show ?case
    by (cases "extractQrFrom (snd kv)")
       (auto simp: firstSome_append subObjects_notObj split: option.splits dest: extractQr_nonempty(1))
next
  case (11 v rest)
  then show ?case
    by (cases "extractQrFrom v")
       (auto simp: firstSome_append subObjects_notObj split: option.splits dest: extractQr_nonempty(1))
qed (auto split: option.splits)


lemma firstSome_Some: "firstSome xs = Some s \<Longrightarrow> Some s \<in> set xs"
  by (induction xs) (auto split: option.splits)

lemma firstSome_None: "firstSome xs = None \<longleftrightarrow> (\<forall>x \<in> set xs. x = None)"
  by (induction xs) (auto split: option.splits)

lemma directQr_None:
  "directQr obj ks = None \<longleftrightarrow> (\<forall>k \<in> set ks. \<forall>s. getProp obj k = JStr s \<longrightarrow> length s \<le> 5)"
  by (induction ks) (auto split: json.splits)

lemma extractQrFields_children:
  "extractQrFields kvs = firstSome (map extractQrFrom (filter isObjectLike (map snd kvs)))"
  by (induction kvs) (auto split: option.splits dest: extractQr_nonempty(1))

lemma extractQrElems_children:
  "extractQrElems vs = firstSome (map extractQrFrom (filter isObjectLike vs))"
  by (induction vs) (auto split: option.splits dest: extractQr_nonempty(1))

lemma extractQrFrom_unfold:
  "extractQrFrom obj =
     (if \<not> isObjectLike obj then None
      else case directQr obj qrKeys of
        Some v \<Rightarrow> Some v
      | None \<Rightarrow> firstSome (map extractQrFrom (filter isObjectLike (children obj))))"
  by (cases obj) (auto simp: extractQrFields_children extractQrElems_children split: option.splits)

lemma nestingFields_child:
  "c \<in> set (map snd kvs) \<Longrightarrow> isObjectLike c \<Longrightarrow> Suc (nesting c) \<le> nestingFields kvs"
  by (induction kvs) (force simp: le_max_iff_disj)+

lemma nestingElems_child:
  "c \<in> set vs \<Longrightarrow> isObjectLike c \<Longrightarrow> Suc (nesting c) \<le> nestingElems vs"
  by (induction vs) (force simp: le_max_iff_disj)+

lemma nesting_child:
  "c \<in> set (children j) \<Longrightarrow> isObjectLike c \<Longrightarrow> Suc (nesting c) \<le> nesting j"
  by (cases j) (auto dest: nestingFields_child nestingElems_child simp del: set_map)

lemma extractQrUpTo_enough:
  "nesting j \<le> d \<Longrightarrow> extractQrUpTo d j = extractQrFrom j"
proof (induction d arbitrary: j)
  case 0
  have "filter isObjectLike (children j) = []"
  proof (rule ccontr)
    assume "filter isObjectLike (children j) \<noteq> []"
    then obtain c where "c \<in> set (children j)" "isObjectLike c"
      by (metis filter_False)
    then have "Suc (nesting c) \<le> nesting j" by (rule nesting_child)
    with 0 show False by simp
  qed
  then show ?case
    by (subst extractQrFrom_unfold) (simp split: option.splits)
next
  case (Suc d)
  have eq: "map (extractQrUpTo d) (filter isObjectLike (children j))
        = map extractQrFrom (filter isObjectLike (children j))"
  proof (rule map_cong[OF refl])
    fix c assume "c \<in> set (filter isObjectLike (children j))"
    then have "Suc (nesting c) \<le> nesting j" by (auto intro: nesting_child)
    with Suc.prems have "nesting c \<le> d" by simp
    then show "extractQrUpTo d c = extractQrFrom c" by (rule Suc.IH)
  qed
  show ?case
    by (subst extractQrFrom_unfold) (simp only: extractQrUpTo.simps eq)
qed

text \<open>
  Claim C1, as amended.  For every value given to \<^verbatim>\<open>extractQrFrom\<close>, the fixed key names are
  searched on the object itself and then, depth-first in key order, on every object or array
  nested in it at any depth.  The result is the first string longer than 5 characters found
  under one of those keys in that order; it is null exactly when no object at any depth holds
  such a string under one of the keys.  On a value with at most one level of nesting the
  result is that of the search "direct and one level of nesting".
\<close>

theorem extractQrFrom_any_depth:
  "extractQrFrom j = firstSome (map (\<lambda>ob. directQr ob qrKeys) (subObjects j))
   \<and> (\<forall>s. extractQrFrom j = Some s \<longrightarrow>
         5 < length s \<and> (\<exists>ob \<in> set (subObjects j). \<exists>k \<in> set qrKeys. getProp ob k = JStr s))
   \<and> (extractQrFrom j = None \<longleftrightarrow>
         (\<forall>ob \<in> set (subObjects j). \<forall>k \<in> set qrKeys. \<forall>s. getProp ob k = JStr s \<longrightarrow> length s \<le> 5))
   \<and> (nesting j \<le> 1 \<longrightarrow> extractQrFrom j = extractQrUpTo 1 j)"
proof (intro conjI allI impI)
  show dfs: "extractQrFrom j = firstSome (map (\<lambda>ob. directQr ob qrKeys) (subObjects j))"
    by (rule extractQr_dfs(1))
  show "extractQrFrom j = None \<longleftrightarrow>
         (\<forall>ob \<in> set (subObjects j). \<forall>k \<in> set qrKeys. \<forall>s. getProp ob k = JStr s \<longrightarrow> length s \<le> 5)"
    unfolding dfs firstSome_None by (simp add: directQr_None)
next
  fix s assume a: "extractQrFrom j = Some s"
  then show "5 < length s" by (rule extractQr_nonempty(1))
  from a have "firstSome (map (\<lambda>ob. directQr ob qrKeys) (subObjects j)) = Some s"
    by (simp add: extractQr_dfs(1))
  then have "Some s \<in> set (map (\<lambda>ob. directQr ob qrKeys) (subObjects j))"
    by (rule firstSome_Some)
  then obtain ob where "ob \<in> set (subObjects j)" "directQr ob qrKeys = Some s"
    by auto
  then show "\<exists>ob \<in> set (subObjects j). \<exists>k \<in> set qrKeys. getProp ob k = JStr s"
    using directQr_long by blast
next
  assume "nesting j \<le> 1"
  then show "extractQrFrom j = extractQrUpTo 1 j" by (simp only: extractQrUpTo_enough)
qed

theorem extractQrFrom_any_depth_witness:
  "extractQrFrom ex3 = Some ''abcdef'' \<and> 5 < length ''abcdef''
   \<and> nesting (JObj [(''connect'', JObj [(''code'', JStr ''2@abcdefgh'')])]) \<le> 1
   \<and> extractQrFrom (JObj [(''connect'', JObj [(''code'', JStr ''2@abcdefgh'')])]) = Some ''2@abcdefgh''
   \<and> extractQrUpTo 1 (JObj [(''connect'', JObj [(''code'', JStr ''2@abcdefgh'')])]) = Some ''2@abcdefgh''"
  using extractQrFrom_any_depth [of ex3]
    extractQrFrom_any_depth [of "JObj [(''connect'', JObj [(''code'', JStr ''2@abcdefgh'')])]"]
  by (simp add: ex3_def qrKeys_def)

text \<open>
  Claim C1 as stated fails: the search does not stop at one level of nesting.  A QR string two
  levels down is returned, where the search of the object and one level of nesting finds none.
\<close>

theorem extractQrFrom_one_level_counterexample:
  "extractQrFrom ex3 = Some ''abcdef'' \<and> extractQrUpTo 1 ex3 = None"
  by (simp add: ex3_def qrKeys_def)

section \<open>The platform\<close>

text \<open>
  A JavaScript number: a finite double (by its exact value; negative zero is zero), an
  infinity, or NaN.
\<close>

datatype jsnum = Fin rat | PosInf | NegInf | NaN

text \<open>
  Built-ins of the browser that the script calls and that are not part of this repository:
  the rendering of a finite number as a string, the conversion of a string to a number, and
  \<^verbatim>\<open>JSON.stringify\<close> (\<open>None\<close> when it throws).
\<close>

record platform =
  Number_toString :: "rat \<Rightarrow> string"
  StringToNumber :: "string \<Rightarrow> jsnum"
  JSON_stringify :: "json \<Rightarrow> string option"

text \<open>\<^verbatim>\<open>toLowerCase\<close>, on the letters A to Z.\<close>

definition toLowerChar :: "char \<Rightarrow> char" where
  "toLowerChar c =
     (case map_of (zip ''ABCDEFGHIJKLMNOPQRSTUVWXYZ'' ''abcdefghijklmnopqrstuvwxyz'') c of
        Some l \<Rightarrow> l
      | None \<Rightarrow> c)"

definition toLowerCase :: "string \<Rightarrow> string" where
  "toLowerCase s = map toLowerChar s"

text \<open>\<^verbatim>\<open>s.includes(n)\<close>: \<open>n\<close> starts at some position of \<open>s\<close>.\<close>

fun str_includes :: "string \<Rightarrow> string \<Rightarrow> bool" where
  "str_includes [] n = (n = [])"
| "str_includes (c # cs) n = (prefix n (c # cs) \<or> str_includes cs n)"

section \<open>Status classification (script.js, friendlyState)\<close>

definition friendlyState :: "platform \<Rightarrow> json \<Rightarrow> string" where
  "friendlyState pf raw =
     (case raw of
        JStr s \<Rightarrow>
          (let low = toLowerCase s in
           if low = ''connected'' then ''connected''
           else if str_includes low ''wait'' \<or> str_includes low ''qr'' then ''waiting-qr''
           else s)
      | _ \<Rightarrow>
          if isObjectLike raw then
            (if getProp raw ''connected'' = JBool True \<and> getProp raw ''loggedIn'' = JBool True
               then ''connected''
             else if getProp raw ''connected'' = JBool True \<and> getProp raw ''loggedIn'' = JBool False
               then ''waiting-qr''
             else (case JSON_stringify pf raw of Some s \<Rightarrow> s | None \<Rightarrow> ''connecting''))
          else ''connecting'')"

lemma includes_sublist: "str_includes s n \<longleftrightarrow> sublist n s"
  by (induction s) (auto simp: sublist_Cons_right)


lemma not_in_connected: "\<not> sublist ''wait'' ''connected''" "\<not> sublist ''qr'' ''connected''"
  by (simp_all add: includes_sublist[symmetric])

text \<open>
  Claim C2.  For every raw state value given to \<^verbatim>\<open>friendlyState\<close>: a string whose lowercase
  form is \<^verbatim>\<open>connected\<close> is classified \<^verbatim>\<open>connected\<close>; a string whose lowercase form
  contains \<^verbatim>\<open>wait\<close> or \<^verbatim>\<open>qr\<close> is classified \<^verbatim>\<open>waiting-qr\<close>; any other string is
  returned unchanged; an object with \<^verbatim>\<open>connected === true\<close> and \<^verbatim>\<open>loggedIn === true\<close> is
  classified \<^verbatim>\<open>connected\<close>, one with \<^verbatim>\<open>connected === true\<close> and
  \<^verbatim>\<open>loggedIn === false\<close> is classified \<^verbatim>\<open>waiting-qr\<close>; any other input yields
  \<^verbatim>\<open>connecting\<close> or the JSON rendering of the object.
\<close>

theorem friendlyState_classifies:
  "(toLowerCase s = ''connected'' \<longrightarrow> friendlyState pf (JStr s) = ''connected'')
   \<and> (sublist ''wait'' (toLowerCase s) \<or> sublist ''qr'' (toLowerCase s) \<longrightarrow>
        friendlyState pf (JStr s) = ''waiting-qr'')
   \<and> (toLowerCase s \<noteq> ''connected'' \<and> \<not> sublist ''wait'' (toLowerCase s)
        \<and> \<not> sublist ''qr'' (toLowerCase s) \<longrightarrow> friendlyState pf (JStr s) = s)
   \<and> (isObjectLike raw \<and> getProp raw ''connected'' = JBool True
        \<and> getProp raw ''loggedIn'' = JBool True \<longrightarrow> friendlyState pf raw = ''connected'')
   \<and> (isObjectLike raw \<and> getProp raw ''connected'' = JBool True
        \<and> getProp raw ''loggedIn'' = JBool False \<longrightarrow> friendlyState pf raw = ''waiting-qr'')
   \<and> ((\<forall>t. raw \<noteq> JStr t)
        \<and> \<not> (isObjectLike raw \<and> getProp raw ''connected'' = JBool True
               \<and> (getProp raw ''loggedIn'' = JBool True \<or> getProp raw ''loggedIn'' = JBool False)) \<longrightarrow>
        friendlyState pf raw = ''connecting''
        \<or> (isObjectLike raw \<and> JSON_stringify pf raw = Some (friendlyState pf raw)))"
proof (intro conjI impI)
  assume "sublist ''wait'' (toLowerCase s) \<or> sublist ''qr'' (toLowerCase s)"
  moreover from this have "toLowerCase s \<noteq> ''connected''"
    using not_in_connected by auto
  ultimately show "friendlyState pf (JStr s) = ''waiting-qr''"
    by (simp add: friendlyState_def includes_sublist Let_def)
next
  assume "(\<forall>t. raw \<noteq> JStr t)
        \<and> \<not> (isObjectLike raw \<and> getProp raw ''connected'' = JBool True
               \<and> (getProp raw ''loggedIn'' = JBool True \<or> getProp raw ''loggedIn'' = JBool False))"
  then show "friendlyState pf raw = ''connecting''
        \<or> (isObjectLike raw \<and> JSON_stringify pf raw = Some (friendlyState pf raw))"
    by (cases raw) (auto simp: friendlyState_def split: option.splits)
qed (auto simp: friendlyState_def includes_sublist Let_def split: json.splits)

text \<open>A platform to evaluate examples on: \<^verbatim>\<open>JSON.stringify({})\<close> is \<^verbatim>\<open>"{}"\<close>.\<close>

definition pf0 :: platform where
  "pf0 = \<lparr>Number_toString = (\<lambda>_. []), StringToNumber = (\<lambda>_. NaN), JSON_stringify = (\<lambda>j. if j = JObj [] then Some ''{}'' else None)\<rparr>"

theorem friendlyState_classifies_witness:
  "toLowerCase ''CONNECTED'' = ''connected'' \<and> friendlyState pf0 (JStr ''CONNECTED'') = ''connected''
   \<and> sublist ''qr'' (toLowerCase ''QRCODE'') \<and> friendlyState pf0 (JStr ''QRCODE'') = ''waiting-qr''
   \<and> friendlyState pf0 (JStr ''open'') = ''open''
   \<and> friendlyState pf0 (JObj [(''connected'', JBool True), (''loggedIn'', JBool True)]) = ''connected''
   \<and> friendlyState pf0 (JObj [(''connected'', JBool True), (''loggedIn'', JBool False)]) = ''waiting-qr''
   \<and> friendlyState pf0 (JObj []) = ''{}''
   \<and> friendlyState pf0 JUndefined = ''connecting''"
  using friendlyState_classifies [of "''CONNECTED''" pf0 "JObj [(''connected'', JBool True), (''loggedIn'', JBool True)]"]
    friendlyState_classifies [of "''QRCODE''" pf0 "JObj [(''connected'', JBool True), (''loggedIn'', JBool False)]"]
    friendlyState_classifies [of "''open''" pf0 "JObj []"]
    friendlyState_classifies [of "''open''" pf0 "JUndefined"]
  by (simp add: friendlyState_def Let_def toLowerCase_def toLowerChar_def includes_sublist[symmetric] pf0_def)

section \<open>JavaScript operators used by the script\<close>

text \<open>Truthiness, and the operators \<^verbatim>\<open>||\<close> and \<^verbatim>\<open>&&\<close>, which return one of their operands.\<close>

fun truthy :: "json \<Rightarrow> bool" where
  "truthy JUndefined = False"
| "truthy JNull = False"
| "truthy (JBool b) = b"
| "truthy (JNum n) = (n \<noteq> 0)"
| "truthy (JStr s) = (s \<noteq> [])"
| "truthy (JArr vs) = True"
| "truthy (JObj kvs) = True"

definition jsOr :: "json \<Rightarrow> json \<Rightarrow> json" where
  "jsOr a b = (if truthy a then a else b)"

definition jsAnd :: "json \<Rightarrow> json \<Rightarrow> json" where
  "jsAnd a b = (if truthy a then b else a)"

text \<open>\<^verbatim>\<open>v[0]\<close> on a value that is neither null nor undefined.\<close>

fun getIndex0 :: "json \<Rightarrow> json" where
  "getIndex0 (JArr vs) = (case vs of [] \<Rightarrow> JUndefined | v # _ \<Rightarrow> v)"
| "getIndex0 (JStr s) = (case s of [] \<Rightarrow> JUndefined | c # _ \<Rightarrow> JStr [c])"
| "getIndex0 j = getProp j ''0''"

text \<open>\<^verbatim>\<open>trim\<close> removes white space (among the characters of one byte) at both ends.\<close>

definition isWhiteSpace :: "char \<Rightarrow> bool" where
  "isWhiteSpace c \<longleftrightarrow> c \<in> set [CHR 0x20, CHR 0x09, CHR 0x0A, CHR 0x0B, CHR 0x0C, CHR 0x0D, CHR 0xA0]"

definition trim :: "string \<Rightarrow> string" where
  "trim s = rev (dropWhile isWhiteSpace (rev (dropWhile isWhiteSpace s)))"

text \<open>
  What awaiting a \<^verbatim>\<open>fetch\<close> gives: a rejection, or a response with its \<^verbatim>\<open>ok\<close> flag and the
  value \<^verbatim>\<open>res.json()\<close> resolves to (\<open>None\<close> when the body does not parse).
\<close>

datatype fetch_result = NetworkError | Response (ok: bool) (body: "json option")

section \<open>The chat widget (script.js, class Chatbot)\<close>

text \<open>An entry of the history: \<^verbatim>\<open>{ role, content, ts: Date.now() }\<close>.\<close>

record history_entry =
  role :: string
  content :: json
  ts :: int

text \<open>An attached file, with the name and MIME type the browser reports.\<close>

datatype image_file = File (fileName: string) (fileType: string)

record chatbot =
  isOpen :: bool
  isTyping :: bool
  sessionId :: string
  pendingImageFile :: "image_file option"
  history :: "history_entry list"
  maxHistory :: nat

text \<open>The fields the constructor sets; the session id is generated from the clock.\<close>

definition newChatbot :: "string \<Rightarrow> chatbot" where
  "newChatbot sid =
     \<lparr>isOpen = False, isTyping = False, sessionId = sid, pendingImageFile = None,
      history = [], maxHistory = 20\<rparr>"

text \<open>\<^verbatim>\<open>xs.slice(-n)\<close>: the last \<open>n\<close> elements, and the whole array when \<open>n\<close> is 0.\<close>

definition sliceLast :: "nat \<Rightarrow> 'a list \<Rightarrow> 'a list" where
  "sliceLast n xs = (if n = 0 then xs else drop (length xs - n) xs)"

text \<open>\<^verbatim>\<open>_pushHistory(role, content)\<close>, with the value of \<^verbatim>\<open>Date.now()\<close> as a parameter.\<close>

definition pushHistory :: "string \<Rightarrow> json \<Rightarrow> int \<Rightarrow> chatbot \<Rightarrow> chatbot" where
  "pushHistory r c now cb =
     (let h = history cb @ [\<lparr>role = r, content = c, ts = now\<rparr>]
      in cb\<lparr>history := (if length h > maxHistory cb then sliceLast (maxHistory cb) h else h)\<rparr>)"

definition clearMemory :: "chatbot \<Rightarrow> chatbot" where
  "clearMemory cb = cb\<lparr>history := []\<rparr>"

text \<open>A sequence of pushes, each with its role, content and time.\<close>

type_synonym push = "string \<times> json \<times> int"

definition entryOf :: "push \<Rightarrow> history_entry" where
  "entryOf p = \<lparr>role = fst p, content = fst (snd p), ts = snd (snd p)\<rparr>"

definition pushAll :: "chatbot \<Rightarrow> push list \<Rightarrow> chatbot" where
  "pushAll cb ps = foldl (\<lambda>c p. pushHistory (fst p) (fst (snd p)) (snd (snd p)) c) cb ps"

lemma pushHistory_maxHistory [simp]: "maxHistory (pushHistory r c now cb) = maxHistory cb"
  by (simp add: pushHistory_def Let_def)

lemma pushAll_maxHistory [simp]: "maxHistory (pushAll cb ps) = maxHistory cb"
  by (induction ps arbitrary: cb) (simp_all add: pushAll_def)

lemma pushAll_snoc: "pushAll cb (ps @ [p]) = pushHistory (fst p) (fst (snd p)) (snd (snd p)) (pushAll cb ps)"
  by (simp add: pushAll_def)

lemma pushHistory_history:
  "0 < maxHistory cb \<Longrightarrow>
   history (pushHistory r c now cb) =
     sliceLast (maxHistory cb) (history cb @ [\<lparr>role = r, content = c, ts = now\<rparr>])"
  by (simp add: pushHistory_def Let_def sliceLast_def)

lemma sliceLast_snoc:
  assumes "0 < n"
  shows "sliceLast n (sliceLast n xs @ [x]) = sliceLast n (xs @ [x])"
proof (cases "length xs \<le> n")
  case True
  with assms show ?thesis by (simp add: sliceLast_def)
next
  case False
  then have "Suc (length xs) - (length xs - n + n) + (length xs - n) = Suc (length xs) - n"
    by arith
  with assms False show ?thesis by (simp add: sliceLast_def)
qed

lemma pushAll_history:
  "0 < maxHistory cb \<Longrightarrow> length (history cb) \<le> maxHistory cb \<Longrightarrow>
   history (pushAll cb ps) = sliceLast (maxHistory cb) (history cb @ map entryOf ps)"
proof (induction ps rule: rev_induct)
  case Nil
  then show ?case by (simp add: pushAll_def sliceLast_def)
next
  case (snoc p ps)
  have e: "\<lparr>role = fst p, content = fst (snd p), ts = snd (snd p)\<rparr> = entryOf p"
    by (simp add: entryOf_def)
  from snoc have "history (pushAll cb (ps @ [p]))
      = sliceLast (maxHistory cb) (sliceLast (maxHistory cb) (history cb @ map entryOf ps) @ [entryOf p])"
    by (simp add: pushAll_snoc pushHistory_history e)
  also have "\<dots> = sliceLast (maxHistory cb) ((history cb @ map entryOf ps) @ [entryOf p])"
    using snoc.prems(1) by (rule sliceLast_snoc)
  finally show ?case by simp
qed

text \<open>
  Claim C3.  After every sequence of pushes through \<^verbatim>\<open>_pushHistory\<close>, starting from the
  constructor's empty history, the history holds the entries pushed, in insertion order, cut to
  the 20 most recent, so its length is at most 20; a single push on a history within the bound
  keeps exactly the 20 most recent entries, and clearing the memory keeps the bound too.
\<close>

theorem history_bounded:
  "history (pushAll (newChatbot sid) ps) = drop (length ps - 20) (map entryOf ps)
   \<and> length (history (pushAll (newChatbot sid) ps)) \<le> 20
   \<and> (length (history cb) \<le> 20 \<and> maxHistory cb = 20 \<longrightarrow>
        history (pushHistory r c now cb)
          = drop (length (history cb) + 1 - 20) (history cb @ [\<lparr>role = r, content = c, ts = now\<rparr>])
        \<and> length (history (pushHistory r c now cb)) \<le> 20
        \<and> length (history (clearMemory cb)) \<le> 20)"
proof -
  have "history (pushAll (newChatbot sid) ps) = drop (length ps - 20) (map entryOf ps)"
    using pushAll_history [of "newChatbot sid" ps]
    by (simp add: newChatbot_def sliceLast_def)
  then show ?thesis
    by (auto simp: pushHistory_def Let_def sliceLast_def clearMemory_def)
qed

theorem history_bounded_witness:
  "length (history (pushAll (newChatbot ''s1'') (replicate 25 (''user'', JStr ''oi'', 7)))) \<le> 20
   \<and> length (history (newChatbot ''s1'')) \<le> 20 \<and> maxHistory (newChatbot ''s1'') = 20
   \<and> length (history (pushHistory ''user'' (JStr ''oi'') 7 (newChatbot ''s1''))) \<le> 20"
  using history_bounded [of "''s1''" "replicate 25 (''user'', JStr ''oi'', 7)" "newChatbot ''s1''" "''user''" "JStr ''oi''" 7]
  by (simp add: newChatbot_def)

subsection \<open>Sending a message\<close>

text \<open>
  A request of the widget that awaits its response: the JSON post to \<^verbatim>\<open>/api/chat\<close> (message,
  normalised history, session id) or the multipart post to \<^verbatim>\<open>/api/vision/upload\<close>.
\<close>

datatype chat_request =
    ChatPost string "(string \<times> json) list" string
  | VisionPost image_file "history_entry list" string

datatype bubble = TextBubble string json | ImageBubble string json

text \<open>
  The widget: the \<^verbatim>\<open>Chatbot\<close> object, the text of the input field, the bubbles of the message
  list, the requests in flight, and how many times a reply has triggered \<^verbatim>\<open>fetchProducts()\<close>.
  The elements of the page are taken to be present; the typing indicator element and the
  disabled flag of the send button follow \<open>isTyping\<close>.
\<close>

record widget =
  bot :: chatbot
  inputValue :: string
  bubbles :: "bubble list"
  inflight :: "chat_request list"
  productRefreshes :: nat

definition newWidget :: "string \<Rightarrow> widget" where
  "newWidget sid =
     \<lparr>bot = newChatbot sid, inputValue = [], bubbles = [], inflight = [], productRefreshes = 0\<rparr>"

definition addMessage :: "json \<Rightarrow> string \<Rightarrow> widget \<Rightarrow> widget" where
  "addMessage text sender w = w\<lparr>bubbles := bubbles w @ [TextBubble sender text]\<rparr>"

definition addImageBubble :: "json \<Rightarrow> string \<Rightarrow> widget \<Rightarrow> widget" where
  "addImageBubble src sender w = w\<lparr>bubbles := bubbles w @ [ImageBubble sender src]\<rparr>"

definition showTypingIndicator :: "widget \<Rightarrow> widget" where
  "showTypingIndicator w = (if isTyping (bot w) then w else w\<lparr>bot := (bot w)\<lparr>isTyping := True\<rparr>\<rparr>)"

definition hideTypingIndicator :: "widget \<Rightarrow> widget" where
  "hideTypingIndicator w = w\<lparr>bot := (bot w)\<lparr>isTyping := False\<rparr>\<rparr>"

definition pushW :: "string \<Rightarrow> json \<Rightarrow> int \<Rightarrow> widget \<Rightarrow> widget" where
  "pushW r c now w = w\<lparr>bot := pushHistory r c now (bot w)\<rparr>"

text \<open>
  \<^verbatim>\<open>sendMessage\<close> up to its first \<^verbatim>\<open>await\<close>: the guards, the user's bubble and history entry,
  the typing indicator, and the request sent.
\<close>

definition sendMessage :: "widget \<Rightarrow> int \<Rightarrow> widget" where
  "sendMessage w now =
     (let message = trim (inputValue w) in
      if isTyping (bot w) then w
      else
        let hasPendingImage = (pendingImageFile (bot w) \<noteq> None) in
        if message = [] \<and> \<not> hasPendingImage then w
        else
          let w1 = (if message \<noteq> []
                    then pushW ''user'' (JStr message) now (addMessage (JStr message) ''user'' w)
                    else w);
              w2 = w1\<lparr>inputValue := []\<rparr>;
              w3 = showTypingIndicator w2
          in case pendingImageFile (bot w3) of
               Some fileToSend \<Rightarrow>
                 w3\<lparr>bot := (bot w3)\<lparr>pendingImageFile := None\<rparr>,
                    inflight := inflight w3 @
                      [VisionPost fileToSend
                         (sliceLast (maxHistory (bot w3)) (history (bot w3))) (sessionId (bot w3))]\<rparr>
             | None \<Rightarrow>
                 w3\<lparr>inflight := inflight w3 @
                      [ChatPost message
                         (map (\<lambda>e. (role e, content e))
                            (sliceLast (maxHistory (bot w3)) (history (bot w3))))
                         (sessionId (bot w3))]\<rparr>)"

text \<open>The reply shown: the first truthy field of the response, or the default text.\<close>

definition replyText :: "json \<Rightarrow> json \<Rightarrow> json" where
  "replyText data dflt =
     jsOr (jsAnd data
        (jsOr (getProp data ''reply'') (jsOr (getProp data ''output'') (jsOr (getProp data ''message'')
        (jsOr (getProp data ''text'') (jsOr (getProp data ''content'')
          (jsAnd (getProp data ''choices'')
            (jsAnd (getIndex0 (getProp data ''choices''))
              (jsAnd (getProp (getIndex0 (getProp data ''choices'')) ''message'')
                 (getProp (getProp (getIndex0 (getProp data ''choices'')) ''message'') ''content''))))))))))
       dflt"

definition chatFailed :: "widget \<Rightarrow> int \<Rightarrow> widget" where
  "chatFailed w now =
     pushW ''assistant'' (JStr ''[erro]'') now
       (addMessage (JStr ''Desculpe, ocorreu um erro. Tente novamente em alguns instantes.'') ''bot''
          (hideTypingIndicator w))"

definition visionFailed :: "widget \<Rightarrow> int \<Rightarrow> widget" where
  "visionFailed w now =
     pushW ''assistant'' (JStr ''[erro imagem]'') now
       (addMessage (JStr ''Erro ao analisar a imagem.'') ''bot'' (hideTypingIndicator w))"

text \<open>\<^verbatim>\<open>sendMessage\<close> after the \<^verbatim>\<open>await\<close>, on the response to the chat post.\<close>

definition chatReplied :: "widget \<Rightarrow> fetch_result \<Rightarrow> int \<Rightarrow> widget" where
  "chatReplied w res now =
     (case res of
        NetworkError \<Rightarrow> chatFailed w now
      | Response isOk parsed \<Rightarrow>
          if \<not> isOk then chatFailed w now
          else (case parsed of
             None \<Rightarrow> chatFailed w now
           | Some data \<Rightarrow>
               let w1 = hideTypingIndicator w;
                   w2 = (if truthy (jsAnd data (getProp data ''product''))
                         then w1\<lparr>productRefreshes := Suc (productRefreshes w1)\<rparr> else w1);
                   text = replyText data (JStr ''OK.'')
               in pushW ''assistant'' text now (addMessage text ''bot'' w2)))"

text \<open>\<^verbatim>\<open>sendImageFile\<close> after its \<^verbatim>\<open>await\<close>, on the response to the upload.\<close>

definition visionReplied :: "widget \<Rightarrow> fetch_result \<Rightarrow> int \<Rightarrow> widget" where
  "visionReplied w res now =
     (case res of
        NetworkError \<Rightarrow> visionFailed w now
      | Response isOk parsed \<Rightarrow>
          if \<not> isOk then visionFailed w now
          else (case parsed of
             None \<Rightarrow> visionFailed w now
           | Some data \<Rightarrow>
               let w1 = hideTypingIndicator w;
                   w2 = (if truthy (jsAnd data (getProp data ''image_url''))
                         then addImageBubble (getProp data ''image_url'') ''bot'' w1 else w1);
                   text = replyText data (JStr ''Imagem recebida.'')
               in pushW ''assistant'' text now (addMessage text ''bot'' w2)))"

definition startsWith :: "string \<Rightarrow> string \<Rightarrow> bool" where
  "startsWith s p = prefix p s"

text \<open>The change handler of the file input.\<close>

definition imageChosen :: "image_file \<Rightarrow> widget \<Rightarrow> widget" where
  "imageChosen f w =
     (if fileType f = [] \<or> \<not> startsWith (fileType f) ''image/''
      then addMessage (JStr (''Arquivo inv'' @ [CHR 0xE1] @ ''lido. Selecione uma imagem.'')) ''bot'' w
      else addImageBubble (JStr (''blob:'' @ fileName f)) ''user''
             (w\<lparr>bot := (bot w)\<lparr>pendingImageFile := Some f\<rparr>\<rparr>))"

text \<open>
  What can happen to the widget: the user edits the input, presses send, picks or removes an
  image, clears the memory, or the response to the oldest request in flight arrives.
\<close>

datatype chat_event =
    TypeText string
  | PressSend int
  | PickImage image_file
  | RemoveImage
  | ClearMemory
  | Respond fetch_result int

fun chatStep :: "widget \<Rightarrow> chat_event \<Rightarrow> widget" where
  "chatStep w (TypeText s) = w\<lparr>inputValue := s\<rparr>"
| "chatStep w (PressSend now) = sendMessage w now"
| "chatStep w (PickImage f) = imageChosen f w"
| "chatStep w RemoveImage = w\<lparr>bot := (bot w)\<lparr>pendingImageFile := None\<rparr>\<rparr>"
| "chatStep w ClearMemory = w\<lparr>bot := clearMemory (bot w)\<rparr>"
| "chatStep w (Respond res now) =
     (case inflight w of
        [] \<Rightarrow> w
      | ChatPost m h sid # rest \<Rightarrow> chatReplied (w\<lparr>inflight := rest\<rparr>) res now
      | VisionPost f h sid # rest \<Rightarrow> visionReplied (w\<lparr>inflight := rest\<rparr>) res now)"

definition chatRun :: "widget \<Rightarrow> chat_event list \<Rightarrow> widget" where
  "chatRun w evs = foldl chatStep w evs"

definition oneInFlight :: "widget \<Rightarrow> bool" where
  "oneInFlight w \<longleftrightarrow> (inflight w = [] \<or> (length (inflight w) = 1 \<and> isTyping (bot w)))"

lemma pushW_simps [simp]:
  "inflight (pushW r c now w) = inflight w"
  "isTyping (bot (pushW r c now w)) = isTyping (bot w)"
  "pendingImageFile (bot (pushW r c now w)) = pendingImageFile (bot w)"
  by (simp_all add: pushW_def pushHistory_def Let_def)

lemma addMessage_simps [simp]:
  "inflight (addMessage t s w) = inflight w"
  "bot (addMessage t s w) = bot w"
  "inflight (addImageBubble t s w) = inflight w"
  "bot (addImageBubble t s w) = bot w"
  by (simp_all add: addMessage_def addImageBubble_def)

lemma hide_simps [simp]:
  "inflight (hideTypingIndicator w) = inflight w"
  "isTyping (bot (hideTypingIndicator w)) = False"
  by (simp_all add: hideTypingIndicator_def)

lemma sendMessage_oneInFlight: "oneInFlight w \<Longrightarrow> oneInFlight (sendMessage w now)"
  by (auto simp: oneInFlight_def sendMessage_def Let_def showTypingIndicator_def split: option.splits)

lemma replied_oneInFlight:
  "inflight w = [] \<Longrightarrow> oneInFlight (chatReplied w res now)"
  "inflight w = [] \<Longrightarrow> oneInFlight (visionReplied w res now)"
  by (auto simp: oneInFlight_def chatReplied_def visionReplied_def chatFailed_def visionFailed_def Let_def
      split: fetch_result.splits option.splits)

lemma chatStep_oneInFlight: "oneInFlight w \<Longrightarrow> oneInFlight (chatStep w ev)"
proof (cases ev)
  case (Respond res now)
  assume "oneInFlight w"
  then show ?thesis
    unfolding Respond
    by (cases "inflight w")
       (auto simp: oneInFlight_def[of w] intro!: replied_oneInFlight split: chat_request.splits list.splits)
qed (auto simp: sendMessage_oneInFlight, auto simp: oneInFlight_def imageChosen_def clearMemory_def)

lemma chatRun_oneInFlight: "oneInFlight w \<Longrightarrow> oneInFlight (chatRun w evs)"
  unfolding chatRun_def by (induction evs arbitrary: w) (simp_all add: chatStep_oneInFlight)

text \<open>
  Claim C10.  \<^verbatim>\<open>sendMessage\<close> changes nothing (no request, same history, same widget) when a
  send is in progress or when the trimmed input is empty and no image is pending; and in
  every run of the widget from its construction at most one request is in flight.
\<close>

theorem sendMessage_guarded:
  "(isTyping (bot w) \<or> (trim (inputValue w) = [] \<and> pendingImageFile (bot w) = None) \<longrightarrow>
      sendMessage w now = w)
   \<and> length (inflight (chatRun (newWidget sid) evs)) \<le> 1"
proof
  show "isTyping (bot w) \<or> (trim (inputValue w) = [] \<and> pendingImageFile (bot w) = None) \<longrightarrow>
      sendMessage w now = w"
    by (auto simp: sendMessage_def Let_def)
  have "oneInFlight (newWidget sid)" by (simp add: oneInFlight_def newWidget_def)
  then have "oneInFlight (chatRun (newWidget sid) evs)" by (rule chatRun_oneInFlight)
  then show "length (inflight (chatRun (newWidget sid) evs)) \<le> 1"
    by (auto simp: oneInFlight_def)
qed

theorem sendMessage_guarded_witness:
  "isTyping (bot (chatRun (newWidget ''s1'') [TypeText ''oi'', PressSend 1]))
   \<and> sendMessage (chatRun (newWidget ''s1'') [TypeText ''oi'', PressSend 1]) 2
       = chatRun (newWidget ''s1'') [TypeText ''oi'', PressSend 1]
   \<and> trim (inputValue (chatRun (newWidget ''s1'') [TypeText ''  ''])) = []
   \<and> sendMessage (chatRun (newWidget ''s1'') [TypeText ''  '']) 2
       = chatRun (newWidget ''s1'') [TypeText ''  '']
   \<and> length (inflight (chatRun (newWidget ''s1'') [TypeText ''oi'', PressSend 1, PressSend 2])) \<le> 1"
  using sendMessage_guarded [of "chatRun (newWidget ''s1'') [TypeText ''oi'', PressSend 1]" 2 "''s1''"
      "[TypeText ''oi'', PressSend 1, PressSend 2]"]
    sendMessage_guarded [of "chatRun (newWidget ''s1'') [TypeText ''  '']" 2 "''s1''" "[]"]
  by (simp add: chatRun_def newWidget_def newChatbot_def sendMessage_def Let_def trim_def
      isWhiteSpace_def showTypingIndicator_def pushW_def pushHistory_def addMessage_def)

section \<open>The WhatsApp panel (script.js)\<close>

text \<open>
  \<^verbatim>\<open>String(v)\<close>, as \<^verbatim>\<open>localStorage.setItem\<close> and template strings apply it: an array joins
  its elements with commas, null and undefined elements as empty strings.
\<close>

fun joinComma :: "string list \<Rightarrow> string" where
  "joinComma [] = []"
| "joinComma [s] = s"
| "joinComma (s # t # rest) = s @ '','' @ joinComma (t # rest)"

fun toStr :: "platform \<Rightarrow> json \<Rightarrow> string" where
  "toStr pf (JStr s) = s"
| "toStr pf JUndefined = ''undefined''"
| "toStr pf JNull = ''null''"
| "toStr pf (JBool b) = (if b then ''true'' else ''false'')"
| "toStr pf (JNum n) = Number_toString pf n"
| "toStr pf (JObj kvs) = ''[object Object]''"
| "toStr pf (JArr vs) =
     joinComma (map (\<lambda>v. if v = JNull \<or> v = JUndefined then [] else toStr pf v) vs)"

text \<open>
  The three endpoints the status poll reads, each built from the current instance and token:
  \<^verbatim>\<open>.../status?token=\<close>, \<^verbatim>\<open>.../qr?token=\<close> and \<^verbatim>\<open>.../qrcode?token=\<close>.
\<close>

datatype endpoint =
    StatusUrl json json
  | QrUrl json json
  | QrcodeUrl json json

text \<open>The QR display: the image element and the drawer that holds a drawn code.\<close>

record qr_view =
  imgShown :: bool
  imgSrc :: string
  drawerShown :: bool
  drawerText :: string

text \<open>
  The calls of \<^verbatim>\<open>alert\<close> in the panel's creation path: the request for a name, and the
  failure message (whose text ends with the error's own message).
\<close>

datatype alert = AlertNameRequired | AlertCreateFailed

text \<open>
  The state of the panel: the three globals, the interval timers that are running (handle and
  period in milliseconds) with the next handle \<^verbatim>\<open>setInterval\<close> will return, the status text,
  the QR display, the alerts shown so far and the local storage.
\<close>

record wa_state =
  waCurrentInstance :: json
  waCurrentToken :: json
  waPollInterval :: "nat option"
  timers :: "(nat \<times> nat) list"
  nextTimer :: nat
  statusText :: string
  qrView :: qr_view
  alerts :: "alert list"
  storage :: "string \<rightharpoonup> string"

text \<open>
  \<^verbatim>\<open>renderQr\<close>: nothing to show hides both elements, a data URI is shown as the image, any
  other string is drawn in the drawer (the QR library is taken to draw without error).
\<close>

definition renderQr :: "string option \<Rightarrow> wa_state \<Rightarrow> wa_state" where
  "renderQr qr s =
     (case qr of
        None \<Rightarrow> s\<lparr>qrView := (qrView s)\<lparr>imgShown := False, drawerShown := False\<rparr>\<rparr>
      | Some q \<Rightarrow>
          if q = [] then s\<lparr>qrView := (qrView s)\<lparr>imgShown := False, drawerShown := False\<rparr>\<rparr>
          else if startsWith q ''data:image''
          then s\<lparr>qrView := (qrView s)\<lparr>drawerShown := False, imgSrc := q, imgShown := True\<rparr>\<rparr>
          else s\<lparr>qrView := (qrView s)\<lparr>imgShown := False, drawerShown := True, drawerText := q\<rparr>\<rparr>)"

definition setInterval :: "nat \<Rightarrow> wa_state \<Rightarrow> wa_state" where
  "setInterval period s =
     s\<lparr>waPollInterval := Some (nextTimer s),
       timers := timers s @ [(nextTimer s, period)],
       nextTimer := Suc (nextTimer s)\<rparr>"

definition clearInterval :: "nat \<Rightarrow> wa_state \<Rightarrow> wa_state" where
  "clearInterval h s = s\<lparr>timers := filter (\<lambda>t. fst t \<noteq> h) (timers s)\<rparr>"

text \<open>\<^verbatim>\<open>if (waPollInterval) clearInterval(waPollInterval)\<close>; the variable keeps its value.\<close>

definition clearPollIfAny :: "wa_state \<Rightarrow> wa_state" where
  "clearPollIfAny s = (case waPollInterval s of None \<Rightarrow> s | Some h \<Rightarrow> clearInterval h s)"

definition orEmptyObject :: "json \<Rightarrow> json" where
  "orEmptyObject v = jsOr v (JObj [])"

text \<open>\<^verbatim>\<open>if (qr)\<close> on a result that is a string or null.\<close>

definition truthyStr :: "string option \<Rightarrow> string option" where
  "truthyStr r = (case r of Some q \<Rightarrow> if q \<noteq> [] then Some q else None | None \<Rightarrow> None)"

text \<open>
  The loop of \<^verbatim>\<open>tryFetchQrFallback\<close>, with the URLs it has requested: a rejected fetch, a
  response that is not OK and a body without a QR string all go on to the next URL; a body
  that does not parse counts as \<^verbatim>\<open>{}\<close>.
\<close>

fun tryUrls :: "(endpoint \<Rightarrow> fetch_result) \<Rightarrow> endpoint list \<Rightarrow> string option \<times> endpoint list" where
  "tryUrls net [] = (None, [])"
| "tryUrls net (url # rest) =
     (let continue = (let (r, tr) = tryUrls net rest in (r, url # tr)) in
      case net url of
        NetworkError \<Rightarrow> continue
      | Response isOk parsed \<Rightarrow>
          if \<not> isOk then continue
          else (case truthyStr (extractQrFrom (case parsed of None \<Rightarrow> JObj [] | Some j \<Rightarrow> j)) of
                  Some q \<Rightarrow> (Some q, [url])
                | None \<Rightarrow> continue))"

definition tryFetchQrFallback ::
    "(endpoint \<Rightarrow> fetch_result) \<Rightarrow> wa_state \<Rightarrow> string option \<times> endpoint list" where
  "tryFetchQrFallback net s =
     (if \<not> truthy (waCurrentInstance s) \<or> \<not> truthy (waCurrentToken s) then (None, [])
      else tryUrls net
             [QrUrl (waCurrentInstance s) (waCurrentToken s),
              QrcodeUrl (waCurrentInstance s) (waCurrentToken s)])"

text \<open>The raw state read off a status response, and the test that ends the polling.\<close>

definition statusRawState :: "json \<Rightarrow> json" where
  "statusRawState data =
     jsOr (getProp data ''status'')
    (jsOr (getProp data ''state'')
    (jsOr (jsAnd (getProp data ''instance'')
             (jsOr (getProp (getProp data ''instance'') ''status'')
                   (getProp (getProp data ''instance'') ''state'')))
    (jsOr (jsAnd (getProp data ''connect'')
             (jsOr (getProp (getProp data ''connect'') ''status'')
                   (getProp (getProp data ''connect'') ''state'')))
          (jsAnd (getProp data ''session'')
             (jsOr (getProp (getProp data ''session'') ''status'')
                   (getProp (getProp data ''session'') ''state''))))))"

definition reallyConnected :: "json \<Rightarrow> bool" where
  "reallyConnected rawState \<longleftrightarrow>
     (case rawState of JStr s \<Rightarrow> toLowerCase s = ''connected'' | _ \<Rightarrow> False)
     \<or> (truthy rawState \<and> getProp rawState ''connected'' = JBool True
         \<and> getProp rawState ''loggedIn'' \<noteq> JBool False)"

definition qrFromStatus :: "json \<Rightarrow> string option" where
  "qrFromStatus data =
     (case truthyStr (extractQrFrom data) of
        Some q \<Rightarrow> Some q
      | None \<Rightarrow>
         (case truthyStr (extractQrFrom (orEmptyObject (getProp data ''connect''))) of
            Some q \<Rightarrow> Some q
          | None \<Rightarrow> extractQrFrom (orEmptyObject (getProp data ''session''))))"

text \<open>
  \<^verbatim>\<open>updateWhatsAppStatus\<close>, for a network that answers each URL: the new state, and the URLs
  requested in order.  A failed fetch, a response that is not OK, a body that does not parse
  and a null body (reading \<^verbatim>\<open>data.status\<close> throws) are caught and leave the state as it was.
\<close>

definition updateWhatsAppStatus ::
    "platform \<Rightarrow> (endpoint \<Rightarrow> fetch_result) \<Rightarrow> wa_state \<Rightarrow> wa_state \<times> endpoint list" where
  "updateWhatsAppStatus pf net s =
     (if \<not> truthy (waCurrentInstance s) \<or> \<not> truthy (waCurrentToken s) then (s, [])
      else
        let url = StatusUrl (waCurrentInstance s) (waCurrentToken s) in
        case net url of
          NetworkError \<Rightarrow> (s, [url])
        | Response isOk parsed \<Rightarrow>
            if \<not> isOk then (s, [url])
            else (case parsed of
               None \<Rightarrow> (s, [url])
             | Some data \<Rightarrow>
                 if data = JNull \<or> data = JUndefined then (s, [url])
                 else
                   let rawState = statusRawState data;
                       stateStr = friendlyState pf rawState;
                       s1 = s\<lparr>statusText := stateStr\<rparr>
                   in if reallyConnected rawState
                      then (renderQr None (clearPollIfAny s1), [url])
                      else (case truthyStr (qrFromStatus data) of
                              Some q \<Rightarrow> (renderQr (Some q) s1, [url])
                            | None \<Rightarrow>
                                if stateStr = ''waiting-qr''
                                then (let (qrFallback, tr) = tryFetchQrFallback net s1
                                      in (renderQr qrFallback s1, url # tr))
                                else (renderQr None s1, [url]))))"

subsection \<open>The fallback endpoints\<close>

text \<open>What one fallback endpoint yields: nothing when the fetch fails, the response is not OK
  or its body holds no QR string.\<close>

definition fallbackQr :: "(endpoint \<Rightarrow> fetch_result) \<Rightarrow> endpoint \<Rightarrow> string option" where
  "fallbackQr net url =
     (case net url of
        NetworkError \<Rightarrow> None
      | Response isOk parsed \<Rightarrow>
          if isOk then truthyStr (extractQrFrom (case parsed of None \<Rightarrow> JObj [] | Some j \<Rightarrow> j))
          else None)"

lemma tryUrls_two:
  "tryUrls net [a, b] =
     (case fallbackQr net a of
        Some q \<Rightarrow> (Some q, [a])
      | None \<Rightarrow> (fallbackQr net b, [a, b]))"
  by (auto simp: fallbackQr_def Let_def split: fetch_result.splits option.splits)

lemma renderQr_alerts [simp]: "alerts (renderQr q s) = alerts s"
  by (simp add: renderQr_def split: option.splits)

lemma renderQr_None_hidden:
  "\<not> imgShown (qrView (renderQr None s)) \<and> \<not> drawerShown (qrView (renderQr None s))"
  by (simp add: renderQr_def)

lemma clearPollIfAny_alerts [simp]: "alerts (clearPollIfAny s) = alerts s"
  by (simp add: clearPollIfAny_def clearInterval_def split: option.splits)

text \<open>The state after a poll, and the requests it made.\<close>

definition pollOf ::
    "platform \<Rightarrow> (endpoint \<Rightarrow> fetch_result) \<Rightarrow> wa_state \<Rightarrow> wa_state" where
  "pollOf pf net s = fst (updateWhatsAppStatus pf net s)"

definition requestsOf ::
    "platform \<Rightarrow> (endpoint \<Rightarrow> fetch_result) \<Rightarrow> wa_state \<Rightarrow> endpoint list" where
  "requestsOf pf net s = snd (updateWhatsAppStatus pf net s)"

text \<open>
  The status response was read, it does not end the polling, no QR string was extracted from
  it, and the classified state is \<^verbatim>\<open>waiting-qr\<close>.
\<close>

definition waitingWithoutQr :: "platform \<Rightarrow> (endpoint \<Rightarrow> fetch_result) \<Rightarrow> wa_state \<Rightarrow> bool" where
  "waitingWithoutQr pf net s \<longleftrightarrow>
     (\<exists>data. net (StatusUrl (waCurrentInstance s) (waCurrentToken s)) = Response True (Some data)
        \<and> data \<noteq> JNull \<and> data \<noteq> JUndefined
        \<and> \<not> reallyConnected (statusRawState data)
        \<and> truthyStr (qrFromStatus data) = None
        \<and> friendlyState pf (statusRawState data) = ''waiting-qr'')"

lemma update_cases:
  fixes s pf net
  defines "st \<equiv> StatusUrl (waCurrentInstance s) (waCurrentToken s)"
    and "q1 \<equiv> QrUrl (waCurrentInstance s) (waCurrentToken s)"
    and "q2 \<equiv> QrcodeUrl (waCurrentInstance s) (waCurrentToken s)"
  shows "(truthy (waCurrentInstance s) \<and> truthy (waCurrentToken s) \<and> waitingWithoutQr pf net s
          \<and> updateWhatsAppStatus pf net s =
              (case fallbackQr net q1 of
                 Some q \<Rightarrow> (renderQr (Some q) (s\<lparr>statusText := ''waiting-qr''\<rparr>), [st, q1])
               | None \<Rightarrow> (renderQr (fallbackQr net q2) (s\<lparr>statusText := ''waiting-qr''\<rparr>), [st, q1, q2])))
       \<or> (\<not> (truthy (waCurrentInstance s) \<and> truthy (waCurrentToken s) \<and> waitingWithoutQr pf net s)
          \<and> (requestsOf pf net s = [] \<or> requestsOf pf net s = [st])
          \<and> alerts (pollOf pf net s) = alerts s)"
proof (cases "truthy (waCurrentInstance s) \<and> truthy (waCurrentToken s) \<and> waitingWithoutQr pf net s")
  case True
  then obtain data where d: "net st = Response True (Some data)" "data \<noteq> JNull" "data \<noteq> JUndefined"
      "\<not> reallyConnected (statusRawState data)" "truthyStr (qrFromStatus data) = None"
      "friendlyState pf (statusRawState data) = ''waiting-qr''"
    by (auto simp: waitingWithoutQr_def st_def)
  with True show ?thesis
    by (auto simp: updateWhatsAppStatus_def Let_def tryFetchQrFallback_def tryUrls_two
        st_def[symmetric] q1_def[symmetric] q2_def[symmetric] simp del: tryUrls.simps
        split: option.splits)
next
  case False
  then show ?thesis
    by (auto simp: updateWhatsAppStatus_def Let_def waitingWithoutQr_def requestsOf_def pollOf_def
        st_def[symmetric] split: fetch_result.splits option.splits)
qed


text \<open>
  Claim C4.  In \<^verbatim>\<open>updateWhatsAppStatus\<close> the two fallback endpoints (\<^verbatim>\<open>.../qr\<close> and
  \<^verbatim>\<open>.../qrcode\<close>) are requested only when no QR string was extracted from the status response
  and the classified state is \<^verbatim>\<open>waiting-qr\<close>; then \<^verbatim>\<open>.../qr\<close> is requested first and
  \<^verbatim>\<open>.../qrcode\<close> exactly when the first yields nothing (not OK, or no QR string); the display
  shows what the first successful one yields, and when both fail the QR display is hidden and
  no alert is raised.
\<close>

theorem fallback_discipline:
  "let st = StatusUrl (waCurrentInstance s) (waCurrentToken s);
       q1 = QrUrl (waCurrentInstance s) (waCurrentToken s);
       q2 = QrcodeUrl (waCurrentInstance s) (waCurrentToken s);
       tr = requestsOf pf net s;
       s' = pollOf pf net s
   in (q1 \<in> set tr \<or> q2 \<in> set tr \<longrightarrow>
         truthy (waCurrentInstance s) \<and> truthy (waCurrentToken s) \<and> waitingWithoutQr pf net s)
    \<and> (truthy (waCurrentInstance s) \<and> truthy (waCurrentToken s) \<and> waitingWithoutQr pf net s \<longrightarrow>
         tr = [st, q1] \<or> tr = [st, q1, q2])
    \<and> (q2 \<in> set tr \<longleftrightarrow> q1 \<in> set tr \<and> fallbackQr net q1 = None)
    \<and> (q1 \<in> set tr \<longrightarrow>
         s' = renderQr (case fallbackQr net q1 of Some q \<Rightarrow> Some q | None \<Rightarrow> fallbackQr net q2)
                (s\<lparr>statusText := ''waiting-qr''\<rparr>))
    \<and> (q1 \<in> set tr \<and> fallbackQr net q1 = None \<and> fallbackQr net q2 = None \<longrightarrow>
         \<not> imgShown (qrView s') \<and> \<not> drawerShown (qrView s') \<and> alerts s' = alerts s)"
  using update_cases [of s pf net]
  by (auto simp: Let_def requestsOf_def pollOf_def renderQr_None_hidden split: option.splits)

text \<open>An example: an instance waiting for its QR code, whose fallback endpoints both fail.\<close>

definition waExample :: wa_state where
  "waExample =
     \<lparr>waCurrentInstance = JStr ''inst1'', waCurrentToken = JStr ''tok1'', waPollInterval = None,
      timers = [], nextTimer = 1, statusText = [],
      qrView = \<lparr>imgShown = True, imgSrc = ''data:image/png;base64,AAAA'', drawerShown = False,
                drawerText = []\<rparr>,
      alerts = [], storage = Map.empty\<rparr>"

definition netWaiting :: "fetch_result \<Rightarrow> fetch_result \<Rightarrow> endpoint \<Rightarrow> fetch_result" where
  "netWaiting r1 r2 url =
     (case url of
        StatusUrl i t \<Rightarrow> Response True (Some (JObj [(''status'', JStr ''waiting'')]))
      | QrUrl i t \<Rightarrow> r1
      | QrcodeUrl i t \<Rightarrow> r2)"

theorem fallback_discipline_witness:
  "requestsOf pf0 (netWaiting (Response False None) NetworkError) waExample
     = [StatusUrl (JStr ''inst1'') (JStr ''tok1''), QrUrl (JStr ''inst1'') (JStr ''tok1''),
        QrcodeUrl (JStr ''inst1'') (JStr ''tok1'')]
   \<and> waitingWithoutQr pf0 (netWaiting (Response False None) NetworkError) waExample
   \<and> fallbackQr (netWaiting (Response False None) NetworkError) (QrUrl (JStr ''inst1'') (JStr ''tok1'')) = None
   \<and> fallbackQr (netWaiting (Response False None) NetworkError) (QrcodeUrl (JStr ''inst1'') (JStr ''tok1'')) = None
   \<and> \<not> imgShown (qrView (pollOf pf0 (netWaiting (Response False None) NetworkError) waExample))
   \<and> \<not> drawerShown (qrView (pollOf pf0 (netWaiting (Response False None) NetworkError) waExample))
   \<and> alerts (pollOf pf0 (netWaiting (Response False None) NetworkError) waExample) = []"
proof -
  have r: "requestsOf pf0 (netWaiting (Response False None) NetworkError) waExample
     = [StatusUrl (JStr ''inst1'') (JStr ''tok1''), QrUrl (JStr ''inst1'') (JStr ''tok1''),
        QrcodeUrl (JStr ''inst1'') (JStr ''tok1'')]"
    by (simp add: requestsOf_def updateWhatsAppStatus_def waExample_def netWaiting_def Let_def
        statusRawState_def jsOr_def jsAnd_def friendlyState_def toLowerCase_def toLowerChar_def
        reallyConnected_def qrFromStatus_def truthyStr_def qrKeys_def orEmptyObject_def
        tryFetchQrFallback_def)
  have i: "waCurrentInstance waExample = JStr ''inst1''" "waCurrentToken waExample = JStr ''tok1''"
    "alerts waExample = []"
    by (simp_all add: waExample_def)
  have f: "fallbackQr (netWaiting (Response False None) NetworkError) (QrUrl (JStr ''inst1'') (JStr ''tok1'')) = None"
    "fallbackQr (netWaiting (Response False None) NetworkError) (QrcodeUrl (JStr ''inst1'') (JStr ''tok1'')) = None"
    by (simp_all add: fallbackQr_def netWaiting_def)
  show ?thesis
    using fallback_discipline [of waExample pf0 "netWaiting (Response False None) NetworkError"]
    by (simp add: Let_def r i f renderQr_None_hidden)
qed

subsection \<open>Scheduling the poll\<close>

text \<open>
  \<^verbatim>\<open>persistWhatsAppInstance\<close>: the instance and the token are written to local storage, each
  when it is truthy.  \<open>persistStorage\<close> is its effect on the storage alone.
\<close>

definition persistStorage ::
    "platform \<Rightarrow> json \<Rightarrow> json \<Rightarrow> (string \<rightharpoonup> string) \<Rightarrow> (string \<rightharpoonup> string)" where
  "persistStorage pf inst tok st =
     (let st1 = (if truthy inst then st(''wa_instance'' \<mapsto> toStr pf inst) else st)
      in if truthy tok then st1(''wa_token'' \<mapsto> toStr pf tok) else st1)"

definition persistWhatsAppInstance :: "platform \<Rightarrow> wa_state \<Rightarrow> wa_state" where
  "persistWhatsAppInstance pf s =
     s\<lparr>storage := persistStorage pf (waCurrentInstance s) (waCurrentToken s) (storage s)\<rparr>"

text \<open>
  \<^verbatim>\<open>updateWhatsAppStatus\<close> in its two phases.  Up to its first \<^verbatim>\<open>await\<close> it checks the
  instance and the token and requests the status URL built from them (\<open>pollStarted\<close>).
  What follows runs later, when the response to that URL has arrived, on the state as it is
  then (\<open>statusArrived\<close>).
\<close>

definition pollStarted :: "wa_state \<Rightarrow> endpoint option" where
  "pollStarted s =
     (if \<not> truthy (waCurrentInstance s) \<or> \<not> truthy (waCurrentToken s) then None
      else Some (StatusUrl (waCurrentInstance s) (waCurrentToken s)))"

definition statusArrived ::
    "platform \<Rightarrow> (endpoint \<Rightarrow> fetch_result) \<Rightarrow> endpoint \<Rightarrow> wa_state \<Rightarrow> wa_state \<times> endpoint list" where
  "statusArrived pf net url s =
     (case net url of
        NetworkError \<Rightarrow> (s, [url])
      | Response isOk parsed \<Rightarrow>
          if \<not> isOk then (s, [url])
          else (case parsed of
             None \<Rightarrow> (s, [url])
           | Some data \<Rightarrow>
               if data = JNull \<or> data = JUndefined then (s, [url])
               else
                 let rawState = statusRawState data;
                     stateStr = friendlyState pf rawState;
                     s1 = s\<lparr>statusText := stateStr\<rparr>
                 in if reallyConnected rawState
                    then (renderQr None (clearPollIfAny s1), [url])
                    else (case truthyStr (qrFromStatus data) of
                            Some q \<Rightarrow> (renderQr (Some q) s1, [url])
                          | None \<Rightarrow>
                              if stateStr = ''waiting-qr''
                              then (let (qrFallback, tr) = tryFetchQrFallback net s1
                                    in (renderQr qrFallback s1, url # tr))
                              else (renderQr None s1, [url]))))"

lemma updateWhatsAppStatus_phases:
  "updateWhatsAppStatus pf net s =
     (case pollStarted s of None \<Rightarrow> (s, []) | Some url \<Rightarrow> statusArrived pf net url s)"
  by (simp add: updateWhatsAppStatus_def pollStarted_def statusArrived_def Let_def)

text \<open>
  \<^verbatim>\<open>restoreWhatsAppInstance\<close>: with an instance and a token in storage, the old interval is
  cleared, a status poll is started and the 4000 ms interval is set.  The poll started here
  continues once this function has returned: its response is a later event.
\<close>

definition restoreWhatsAppInstance :: "wa_state \<Rightarrow> wa_state" where
  "restoreWhatsAppInstance s =
     (case (storage s ''wa_instance'', storage s ''wa_token'') of
        (Some inst, Some tok) \<Rightarrow>
          if inst \<noteq> [] \<and> tok \<noteq> []
          then setInterval 4000
                 (clearPollIfAny (s\<lparr>waCurrentInstance := JStr inst, waCurrentToken := JStr tok\<rparr>))
          else s
      | _ \<Rightarrow> s)"

text \<open>
  \<^verbatim>\<open>createWhatsAppInstance\<close> suspends at \<^verbatim>\<open>await updateWhatsAppStatus()\<close>, between clearing
  the old interval and setting the new one, and other handlers run while it waits.  Its first
  phase is given the text of the name field and the answer to the POST; it ends either
  finished (an alert was shown) or suspended on the poll it has started, with the URL that
  poll requested, if any.
\<close>

datatype suspension = Finished | AwaitsPoll "endpoint option"

definition createWhatsAppInstance ::
    "platform \<Rightarrow> string \<Rightarrow> fetch_result \<Rightarrow> wa_state \<Rightarrow> wa_state \<times> suspension" where
  "createWhatsAppInstance pf nameInput posted s =
     (let name = trim nameInput;
          failed = (s\<lparr>alerts := alerts s @ [AlertCreateFailed]\<rparr>, Finished)
      in if name = [] then (s\<lparr>alerts := alerts s @ [AlertNameRequired]\<rparr>, Finished)
         else case posted of
           NetworkError \<Rightarrow> failed
         | Response isOk parsed \<Rightarrow>
             if \<not> isOk then failed
             else (case parsed of
                None \<Rightarrow> failed
              | Some data \<Rightarrow>
                  if data = JNull \<or> data = JUndefined then failed
                  else
                    let s1 = s\<lparr>waCurrentInstance :=
                                 jsOr (getProp data ''instanceId'')
                                (jsOr (getProp data ''instance'')
                                (jsOr (getProp data ''name'') (JStr name))),
                               waCurrentToken := getProp data ''token''\<rparr>;
                        c = orEmptyObject (getProp data ''connect'');
                        rawState = jsOr (getProp c ''status'') (jsOr (getProp c ''state'')
                                  (jsOr (getProp data ''status'') (jsOr (getProp data ''state'')
                                     (JStr ''connecting''))));
                        s2 = s1\<lparr>statusText := friendlyState pf rawState\<rparr>;
                        initialQr = (case truthyStr (extractQrFrom c) of
                                       Some q \<Rightarrow> Some q
                                     | None \<Rightarrow> extractQrFrom data);
                        s3 = persistWhatsAppInstance pf (renderQr initialQr s2);
                        s4 = clearPollIfAny s3
                    in (s4, AwaitsPoll (pollStarted s4))))"

text \<open>
  The second phase, on the state as it is when the awaited poll is over: the response to the
  poll's request is handled, then the interval is set.
\<close>

definition createResumed ::
    "platform \<Rightarrow> endpoint option \<Rightarrow> (endpoint \<Rightarrow> fetch_result) \<Rightarrow> wa_state \<Rightarrow> wa_state" where
  "createResumed pf requested net s =
     setInterval 4000
       (case requested of None \<Rightarrow> s | Some url \<Rightarrow> fst (statusArrived pf net url s))"

text \<open>The \<^verbatim>\<open>visibilitychange\<close> handler: the tab is hidden, or visible again.\<close>

definition tabHidden :: "wa_state \<Rightarrow> wa_state" where
  "tabHidden s =
     (case waPollInterval s of
        Some h \<Rightarrow> (clearInterval h s)\<lparr>waPollInterval := None\<rparr>
      | None \<Rightarrow> s)"

definition tabVisible :: "wa_state \<Rightarrow> wa_state" where
  "tabVisible s =
     (if truthy (waCurrentInstance s) \<and> truthy (waCurrentToken s) \<and> waPollInterval s = None
      then setInterval 4000 s else s)"

text \<open>
  The events of the panel.  Each is one stretch of code that runs without suspending: the
  first phase of a creation, its resumption, the restore at page load, the arrival of the
  response to a status request (of a tick of the interval, or of the poll a restore started),
  and the two visibility changes.  A run is any sequence of them, so every interleaving of
  the suspended handlers is a run.
\<close>

datatype wa_event =
    CreateBegins string fetch_result
  | CreateResumes "endpoint option" "endpoint \<Rightarrow> fetch_result"
  | Restore
  | StatusArrives endpoint "endpoint \<Rightarrow> fetch_result"
  | Hidden
  | Visible

fun waStep :: "platform \<Rightarrow> wa_state \<Rightarrow> wa_event \<Rightarrow> wa_state" where
  "waStep pf s (CreateBegins nameInput posted) = fst (createWhatsAppInstance pf nameInput posted s)"
| "waStep pf s (CreateResumes requested net) = createResumed pf requested net s"
| "waStep pf s Restore = restoreWhatsAppInstance s"
| "waStep pf s (StatusArrives url net) = fst (statusArrived pf net url s)"
| "waStep pf s Hidden = tabHidden s"
| "waStep pf s Visible = tabVisible s"

definition waRun :: "platform \<Rightarrow> wa_state \<Rightarrow> wa_event list \<Rightarrow> wa_state" where
  "waRun pf s evs = foldl (waStep pf) s evs"

definition waInit :: "(string \<rightharpoonup> string) \<Rightarrow> wa_state" where
  "waInit store =
     \<lparr>waCurrentInstance = JNull, waCurrentToken = JNull, waPollInterval = None, timers = [],
      nextTimer = 1, statusText = [],
      qrView = \<lparr>imgShown = False, imgSrc = [], drawerShown = False, drawerText = []\<rparr>,
      alerts = [], storage = store\<rparr>"

text \<open>
  The raw state read off the response to a status request, when there is one: the response is
  OK and its body parses to a value that is not null.
\<close>

definition arrivedState :: "fetch_result \<Rightarrow> json option" where
  "arrivedState res =
     (case res of
        NetworkError \<Rightarrow> None
      | Response isOk parsed \<Rightarrow>
          if \<not> isOk then None
          else (case parsed of
             None \<Rightarrow> None
           | Some data \<Rightarrow> if data = JNull \<or> data = JUndefined then None else Some (statusRawState data)))"

text \<open>
  \<^verbatim>\<open>JSON.stringify\<close> of an object starts with a brace or a bracket: it is never one of the
  two labels.
\<close>

definition stringifySane :: "platform \<Rightarrow> json \<Rightarrow> bool" where
  "stringifySane pf raw \<longleftrightarrow>
     JSON_stringify pf raw \<noteq> Some ''connected'' \<and> JSON_stringify pf raw \<noteq> Some ''waiting-qr''"

lemma renderQr_timers [simp]:
  "timers (renderQr q s) = timers s" "waPollInterval (renderQr q s) = waPollInterval s"
  "nextTimer (renderQr q s) = nextTimer s"
  "waCurrentInstance (renderQr q s) = waCurrentInstance s"
  "waCurrentToken (renderQr q s) = waCurrentToken s"
  by (simp_all add: renderQr_def split: option.splits)

lemma clearPollIfAny_fields [simp]:
  "waPollInterval (clearPollIfAny s) = waPollInterval s"
  "nextTimer (clearPollIfAny s) = nextTimer s"
  "waCurrentInstance (clearPollIfAny s) = waCurrentInstance s"
  "waCurrentToken (clearPollIfAny s) = waCurrentToken s"
  by (simp_all add: clearPollIfAny_def clearInterval_def split: option.splits)

lemma clearPollIfAny_timers:
  "timers (clearPollIfAny s) = filter (\<lambda>t. Some (fst t) \<noteq> waPollInterval s) (timers s)"
  by (auto simp: clearPollIfAny_def clearInterval_def split: option.splits intro: filter_cong)

lemma statusArrived_fields [simp]:
  "waPollInterval (fst (statusArrived pf net url s)) = waPollInterval s"
  "nextTimer (fst (statusArrived pf net url s)) = nextTimer s"
  "waCurrentInstance (fst (statusArrived pf net url s)) = waCurrentInstance s"
  "waCurrentToken (fst (statusArrived pf net url s)) = waCurrentToken s"
  by (simp_all add: statusArrived_def Let_def
      split: fetch_result.splits option.splits prod.splits)

lemma statusArrived_timers:
  "timers (fst (statusArrived pf net url s)) =
     (case arrivedState (net url) of
        None \<Rightarrow> timers s
      | Some raw \<Rightarrow> if reallyConnected raw then timers (clearPollIfAny s) else timers s)"
  by (auto simp: statusArrived_def arrivedState_def Let_def clearPollIfAny_def clearInterval_def
      split: fetch_result.splits option.splits prod.splits)

lemma toLowerCase_connected: "toLowerCase ''connected'' = ''connected''"
  by (simp add: toLowerCase_def toLowerChar_def)

lemma labelled_connected:
  assumes "stringifySane pf raw" and "friendlyState pf raw = ''connected''"
  shows "reallyConnected raw"
proof (cases raw)
  case (JStr s)
  with assms(2) have "toLowerCase s = ''connected''"
    using toLowerCase_connected
    by (auto simp: friendlyState_def Let_def split: if_splits)
  then show ?thesis by (simp add: reallyConnected_def JStr)
next
  case (JArr vs)
  with assms show ?thesis
    by (auto simp: friendlyState_def stringifySane_def split: if_splits option.splits)
next
  case (JObj kvs)
  with assms show ?thesis
    by (auto simp: friendlyState_def stringifySane_def reallyConnected_def split: if_splits option.splits)
qed (use assms(2) in \<open>simp_all add: friendlyState_def\<close>)

lemma labelled_waiting:
  assumes "stringifySane pf raw" and "friendlyState pf raw = ''waiting-qr''"
  shows "\<not> reallyConnected raw"
proof (cases raw)
  case (JStr s)
  with assms(2) have "toLowerCase s \<noteq> ''connected''"
    by (auto simp: friendlyState_def Let_def split: if_splits)
  then show ?thesis by (simp add: reallyConnected_def JStr)
next
  case (JArr vs)
  then show ?thesis by (simp add: reallyConnected_def)
next
  case (JObj kvs)
  with assms show ?thesis
    by (auto simp: friendlyState_def stringifySane_def reallyConnected_def split: if_splits option.splits)
qed (simp_all add: reallyConnected_def)

lemma reallyConnected_explicit:
  "reallyConnected raw \<longleftrightarrow>
     (\<exists>str. raw = JStr str \<and> toLowerCase str = ''connected'')
     \<or> (getProp raw ''connected'' = JBool True \<and> getProp raw ''loggedIn'' \<noteq> JBool False)"
  by (cases raw) (auto simp: reallyConnected_def)

lemma persist_fields [simp]:
  "timers (persistWhatsAppInstance pf s) = timers s"
  "waPollInterval (persistWhatsAppInstance pf s) = waPollInterval s"
  "nextTimer (persistWhatsAppInstance pf s) = nextTimer s"
  by (simp_all add: persistWhatsAppInstance_def)

text \<open>Every interval has the period 4000 ms.\<close>

definition allFourSeconds :: "wa_state \<Rightarrow> bool" where
  "allFourSeconds s \<longleftrightarrow> (\<forall>t \<in> set (timers s). snd t = 4000)"

lemma allFourSeconds_subset:
  "allFourSeconds s \<Longrightarrow> set (timers s') \<subseteq> set (timers s) \<Longrightarrow> allFourSeconds s'"
  by (auto simp: allFourSeconds_def)

lemma statusArrived_subset: "set (timers (fst (statusArrived pf net url s))) \<subseteq> set (timers s)"
  by (auto simp: statusArrived_timers clearPollIfAny_timers split: option.splits)

lemma setInterval_timers:
  "timers (setInterval p s) = timers s @ [(nextTimer s, p)]"
  "waPollInterval (setInterval p s) = Some (nextTimer s)"
  by (simp_all add: setInterval_def)

lemma setInterval_allFourSeconds: "allFourSeconds s \<Longrightarrow> allFourSeconds (setInterval 4000 s)"
  by (auto simp: allFourSeconds_def setInterval_timers)

lemma clearPollIfAny_allFourSeconds: "allFourSeconds s \<Longrightarrow> allFourSeconds (clearPollIfAny s)"
  by (auto simp: allFourSeconds_def clearPollIfAny_timers)

lemma create_timers:
  "timers (fst (createWhatsAppInstance pf nameInput posted s)) =
     (case snd (createWhatsAppInstance pf nameInput posted s) of
        Finished \<Rightarrow> timers s
      | AwaitsPoll requested \<Rightarrow> timers (clearPollIfAny s))"
  by (auto simp: createWhatsAppInstance_def Let_def clearPollIfAny_timers
      split: fetch_result.splits option.splits)

lemma create_suspends:
  "trim nameInput \<noteq> [] \<Longrightarrow> data \<noteq> JNull \<Longrightarrow> data \<noteq> JUndefined \<Longrightarrow>
   \<exists>requested. snd (createWhatsAppInstance pf nameInput (Response True (Some data)) s) = AwaitsPoll requested"
  by (simp add: createWhatsAppInstance_def Let_def)

lemma restore_timers:
  "storage s ''wa_instance'' = Some i \<Longrightarrow> storage s ''wa_token'' = Some t \<Longrightarrow> i \<noteq> [] \<Longrightarrow> t \<noteq> [] \<Longrightarrow>
   timers (restoreWhatsAppInstance s) = timers (clearPollIfAny s) @ [(nextTimer s, 4000)]
   \<and> waPollInterval (restoreWhatsAppInstance s) = Some (nextTimer s)"
  by (simp add: restoreWhatsAppInstance_def setInterval_timers clearPollIfAny_timers)

lemma waStep_allFourSeconds: "allFourSeconds s \<Longrightarrow> allFourSeconds (waStep pf s ev)"
proof (cases ev)
  case (CreateBegins nameInput posted)
  assume a: "allFourSeconds s"
  have "set (timers (fst (createWhatsAppInstance pf nameInput posted s))) \<subseteq> set (timers s)"
    by (auto simp: create_timers clearPollIfAny_timers split: suspension.splits)
  with a show ?thesis unfolding CreateBegins by (simp add: allFourSeconds_subset)
next
  case (CreateResumes requested net)
  assume a: "allFourSeconds s"
  then have "allFourSeconds (case requested of None \<Rightarrow> s | Some url \<Rightarrow> fst (statusArrived pf net url s))"
    using allFourSeconds_subset[OF a statusArrived_subset] by (simp split: option.splits)
  then show ?thesis unfolding CreateResumes
    by (simp add: createResumed_def setInterval_allFourSeconds)
next
  case Restore
  assume a: "allFourSeconds s"
  have "allFourSeconds (clearPollIfAny (s\<lparr>waCurrentInstance := a1, waCurrentToken := a2\<rparr>))" for a1 a2
    using a by (intro clearPollIfAny_allFourSeconds) (simp add: allFourSeconds_def)
  then show ?thesis unfolding Restore using a
    by (auto simp: restoreWhatsAppInstance_def setInterval_allFourSeconds split: option.splits)
next
  case (StatusArrives url net)
  assume "allFourSeconds s"
  then show ?thesis unfolding StatusArrives
    using statusArrived_subset by (simp add: allFourSeconds_subset)
next
  case Hidden
  assume "allFourSeconds s"
  then show ?thesis unfolding Hidden
    by (auto simp: allFourSeconds_def tabHidden_def clearInterval_def split: option.splits)
next
  case Visible
  assume "allFourSeconds s"
  then show ?thesis unfolding Visible
    by (simp add: tabVisible_def setInterval_allFourSeconds)
qed

lemma waRun_allFourSeconds: "allFourSeconds s \<Longrightarrow> allFourSeconds (waRun pf s evs)"
  unfolding waRun_def by (induction evs arbitrary: s) (simp_all add: waStep_allFourSeconds)

lemma arrivals_schedule_nothing:
  "set (timers (waRun pf s (map (\<lambda>a. StatusArrives (fst a) (snd a)) arrivals))) \<subseteq> set (timers s)"
  unfolding waRun_def
proof (induction arrivals arbitrary: s)
  case Nil
  show ?case by simp
next
  case (Cons a arrivals)
  show ?case using Cons[of "fst (statusArrived pf (snd a) (fst a) s)"] statusArrived_subset[of pf "snd a" "fst a" s]
    by auto
qed

text \<open>An example: an instance found in storage, and a backend that reports a status.\<close>

definition storedInstance :: "string \<rightharpoonup> string" where
  "storedInstance = [''wa_instance'' \<mapsto> ''inst1'', ''wa_token'' \<mapsto> ''tok1'']"

definition netStatus :: "string \<Rightarrow> endpoint \<Rightarrow> fetch_result" where
  "netStatus label url = Response True (Some (JObj [(''status'', JStr label)]))"

definition netConnected :: "endpoint \<Rightarrow> fetch_result" where
  "netConnected = netStatus ''connected''"

definition statusUrl1 :: endpoint where
  "statusUrl1 = StatusUrl (JStr ''inst1'') (JStr ''tok1'')"

lemmas wa_eval =
  waRun_def waInit_def restoreWhatsAppInstance_def storedInstance_def setInterval_def
  clearPollIfAny_def clearInterval_def statusArrived_def Let_def netConnected_def netStatus_def
  statusRawState_def jsOr_def jsAnd_def friendlyState_def toLowerCase_def toLowerChar_def
  reallyConnected_def renderQr_def tabHidden_def tabVisible_def arrivedState_def statusUrl1_def

text \<open>
  Claim C6, as amended.  Every interval the panel ever runs has the period 4000 ms.  A restore
  that finds an instance and a token in storage clears the interval it holds and sets one of
  4000 ms; a creation that succeeds clears the interval it holds, suspends on its first poll,
  and on resumption sets one of 4000 ms.  When the response to a status request arrives, the
  interval held in \<^verbatim>\<open>waPollInterval\<close> is cancelled exactly when the raw state of the response
  is the string \<^verbatim>\<open>connected\<close> in any letter case, or an object whose \<^verbatim>\<open>connected\<close> is true
  and whose \<^verbatim>\<open>loggedIn\<close> is not false; every response labelled \<^verbatim>\<open>connected\<close> is among
  these, and no response labelled \<^verbatim>\<open>waiting-qr\<close> is.  A request that fails leaves the intervals
  as they are, and responses alone never start an interval.  Hiding the tab cancels the
  interval held, and showing the tab again sets the 4000 ms interval whenever an instance and
  a token are set and no handle is held, whatever the last response said.
\<close>

theorem polling_schedule:
  "allFourSeconds (waRun pf (waInit store) evs)
   \<and> (storage s ''wa_instance'' = Some i \<and> storage s ''wa_token'' = Some t \<and> i \<noteq> [] \<and> t \<noteq> [] \<longrightarrow>
        timers (restoreWhatsAppInstance s) = timers (clearPollIfAny s) @ [(nextTimer s, 4000)]
        \<and> waPollInterval (restoreWhatsAppInstance s) = Some (nextTimer s))
   \<and> (trim nameInput \<noteq> [] \<and> data \<noteq> JNull \<and> data \<noteq> JUndefined \<longrightarrow>
        (\<exists>requested. snd (createWhatsAppInstance pf nameInput (Response True (Some data)) s)
            = AwaitsPoll requested)
        \<and> timers (fst (createWhatsAppInstance pf nameInput (Response True (Some data)) s))
            = filter (\<lambda>t. Some (fst t) \<noteq> waPollInterval s) (timers s))
   \<and> timers (createResumed pf requested net s)
        = timers (case requested of None \<Rightarrow> s | Some u \<Rightarrow> fst (statusArrived pf net u s))
          @ [(nextTimer s, 4000)]
   \<and> waPollInterval (createResumed pf requested net s) = Some (nextTimer s)
   \<and> (arrivedState (net url) = Some raw \<longrightarrow>
        timers (fst (statusArrived pf net url s))
          = (if (\<exists>str. raw = JStr str \<and> toLowerCase str = ''connected'')
                \<or> (getProp raw ''connected'' = JBool True \<and> getProp raw ''loggedIn'' \<noteq> JBool False)
             then filter (\<lambda>t. Some (fst t) \<noteq> waPollInterval s) (timers s)
             else timers s))
   \<and> (arrivedState (net url) = Some raw \<and> stringifySane pf raw
        \<and> friendlyState pf raw = ''connected'' \<longrightarrow>
        timers (fst (statusArrived pf net url s))
          = filter (\<lambda>t. Some (fst t) \<noteq> waPollInterval s) (timers s))
   \<and> (arrivedState (net url) = Some raw \<and> stringifySane pf raw
        \<and> friendlyState pf raw = ''waiting-qr'' \<longrightarrow>
        timers (fst (statusArrived pf net url s)) = timers s)
   \<and> (arrivedState (net url) = None \<longrightarrow> timers (fst (statusArrived pf net url s)) = timers s)
   \<and> set (timers (waRun pf s (map (\<lambda>a. StatusArrives (fst a) (snd a)) arrivals))) \<subseteq> set (timers s)
   \<and> timers (tabHidden s) = filter (\<lambda>t. Some (fst t) \<noteq> waPollInterval s) (timers s)
   \<and> waPollInterval (tabHidden s) = None
   \<and> (truthy (waCurrentInstance s) \<and> truthy (waCurrentToken s) \<and> waPollInterval s = None \<longrightarrow>
        timers (tabVisible s) = timers s @ [(nextTimer s, 4000)])"
proof -
  let ?kept = "filter (\<lambda>t. Some (fst t) \<noteq> waPollInterval s) (timers s)"
  have "allFourSeconds (waInit store)" by (simp add: allFourSeconds_def waInit_def)
  then have a: "allFourSeconds (waRun pf (waInit store) evs)" by (rule waRun_allFourSeconds)
  have c: "trim nameInput \<noteq> [] \<and> data \<noteq> JNull \<and> data \<noteq> JUndefined \<longrightarrow>
        (\<exists>requested. snd (createWhatsAppInstance pf nameInput (Response True (Some data)) s)
            = AwaitsPoll requested)
        \<and> timers (fst (createWhatsAppInstance pf nameInput (Response True (Some data)) s)) = ?kept"
    using create_suspends[of nameInput data pf s]
    by (auto simp: create_timers[of pf nameInput "Response True (Some data)" s] clearPollIfAny_timers)
  have r1: "timers (createResumed pf requested net s)
        = timers (case requested of None \<Rightarrow> s | Some u \<Rightarrow> fst (statusArrived pf net u s))
          @ [(nextTimer s, 4000)]"
    and r2: "waPollInterval (createResumed pf requested net s) = Some (nextTimer s)"
    by (simp_all add: createResumed_def setInterval_timers split: option.splits)
  have x: "arrivedState (net url) = Some raw \<longrightarrow>
        timers (fst (statusArrived pf net url s))
          = (if (\<exists>str. raw = JStr str \<and> toLowerCase str = ''connected'')
                \<or> (getProp raw ''connected'' = JBool True \<and> getProp raw ''loggedIn'' \<noteq> JBool False)
             then ?kept else timers s)"
    by (simp add: statusArrived_timers clearPollIfAny_timers reallyConnected_explicit[symmetric])
  have k: "arrivedState (net url) = Some raw \<and> stringifySane pf raw
        \<and> friendlyState pf raw = ''connected'' \<longrightarrow>
        timers (fst (statusArrived pf net url s)) = ?kept"
    using labelled_connected[of pf raw]
    by (auto simp: statusArrived_timers clearPollIfAny_timers)
  have w: "arrivedState (net url) = Some raw \<and> stringifySane pf raw
        \<and> friendlyState pf raw = ''waiting-qr'' \<longrightarrow>
        timers (fst (statusArrived pf net url s)) = timers s"
    using labelled_waiting[of pf raw]
    by (auto simp: statusArrived_timers)
  have n: "arrivedState (net url) = None \<longrightarrow> timers (fst (statusArrived pf net url s)) = timers s"
    by (auto simp: statusArrived_timers)
  have h1: "timers (tabHidden s) = ?kept" and h2: "waPollInterval (tabHidden s) = None"
    by (auto simp: tabHidden_def clearInterval_def split: option.splits intro: filter_cong)
  have v: "truthy (waCurrentInstance s) \<and> truthy (waCurrentToken s) \<and> waPollInterval s = None \<longrightarrow>
        timers (tabVisible s) = timers s @ [(nextTimer s, 4000)]"
    by (simp add: tabVisible_def setInterval_timers)
  have e: "storage s ''wa_instance'' = Some i \<and> storage s ''wa_token'' = Some t \<and> i \<noteq> [] \<and> t \<noteq> [] \<longrightarrow>
        timers (restoreWhatsAppInstance s) = timers (clearPollIfAny s) @ [(nextTimer s, 4000)]
        \<and> waPollInterval (restoreWhatsAppInstance s) = Some (nextTimer s)"
    using restore_timers[of s i t] by blast
  note f = arrivals_schedule_nothing[of pf s arrivals]
  from a e c r1 r2 x k w n f h1 h2 v show ?thesis
    by (intro conjI)
qed

text \<open>
  Claim C6 as stated fails: after a response has classified the instance as connected and the
  interval is cancelled, hiding the tab and showing it again schedules the poll once more.
\<close>

theorem polling_resumes_counterexample:
  "arrivedState (netConnected statusUrl1) = Some (JStr ''connected'')
   \<and> friendlyState pf0 (JStr ''connected'') = ''connected''
   \<and> timers (waRun pf0 (waInit storedInstance) [Restore, StatusArrives statusUrl1 netConnected]) = []
   \<and> timers (waRun pf0 (waInit storedInstance)
        [Restore, StatusArrives statusUrl1 netConnected, Hidden, Visible]) = [(2, 4000)]"
  by (simp add: wa_eval)

theorem polling_schedule_witness:
  "storage (waInit storedInstance) ''wa_instance'' = Some ''inst1''
   \<and> timers (restoreWhatsAppInstance (waInit storedInstance)) = [(1, 4000)]
   \<and> arrivedState (netConnected statusUrl1) = Some (JStr ''connected'')
   \<and> stringifySane pf0 (JStr ''connected'')
   \<and> friendlyState pf0 (JStr ''connected'') = ''connected''
   \<and> timers (fst (statusArrived pf0 netConnected statusUrl1 (restoreWhatsAppInstance (waInit storedInstance)))) = []
   \<and> arrivedState (netStatus ''qrcode'' statusUrl1) = Some (JStr ''qrcode'')
   \<and> friendlyState pf0 (JStr ''qrcode'') = ''waiting-qr''
   \<and> timers (fst (statusArrived pf0 (netStatus ''qrcode'') statusUrl1 (restoreWhatsAppInstance (waInit storedInstance))))
       = [(1, 4000)]
   \<and> arrivedState NetworkError = None
   \<and> timers (fst (statusArrived pf0 (\<lambda>u. NetworkError) statusUrl1 (restoreWhatsAppInstance (waInit storedInstance))))
       = [(1, 4000)]
   \<and> trim ''loja'' \<noteq> []
   \<and> timers (fst (createWhatsAppInstance pf0 ''loja'' (Response True (Some (JObj [(''token'', JStr ''tok1'')])))
        (restoreWhatsAppInstance (waInit storedInstance)))) = []
   \<and> timers (createResumed pf0 None netConnected (waInit storedInstance)) = [(1, 4000)]
   \<and> timers (tabVisible (tabHidden (restoreWhatsAppInstance (waInit storedInstance)))) = [(2, 4000)]"
proof -
  let ?s = "waInit storedInstance"
  let ?s1 = "restoreWhatsAppInstance (waInit storedInstance)"
  let ?s2 = "tabHidden (restoreWhatsAppInstance (waInit storedInstance))"
  let ?d = "JObj [(''token'', JStr ''tok1'')]"
  have st: "storage ?s ''wa_instance'' = Some ''inst1''" "storage ?s ''wa_token'' = Some ''tok1''"
    by (simp_all add: waInit_def storedInstance_def)
  have t: "trim ''loja'' \<noteq> []" by (simp add: trim_def isWhiteSpace_def)
  have a: "arrivedState (netConnected statusUrl1) = Some (JStr ''connected'')"
    "stringifySane pf0 (JStr ''connected'')"
    "friendlyState pf0 (JStr ''connected'') = ''connected''"
    by (simp_all add: wa_eval stringifySane_def pf0_def)
  have b: "arrivedState (netStatus ''qrcode'' statusUrl1) = Some (JStr ''qrcode'')"
    "stringifySane pf0 (JStr ''qrcode'')"
    "friendlyState pf0 (JStr ''qrcode'') = ''waiting-qr''"
    by (simp_all add: wa_eval stringifySane_def pf0_def)
  have ne: "arrivedState NetworkError = None" by (simp add: arrivedState_def)
  have f: "timers ?s = []" "nextTimer ?s = 1" "waPollInterval ?s = None"
    by (simp_all add: waInit_def)
  have f1: "timers ?s1 = [(1, 4000)]" "waPollInterval ?s1 = Some 1"
    by (simp_all add: wa_eval)
  have f2: "timers ?s2 = []" "waPollInterval ?s2 = None" "nextTimer ?s2 = 2"
    "truthy (waCurrentInstance ?s2)" "truthy (waCurrentToken ?s2)"
    by (simp_all add: wa_eval)
  note p = polling_schedule [of pf0 storedInstance "[]" ?s "''inst1''" "''tok1''" "''loja''" ?d
      None netConnected statusUrl1 "JStr ''connected''" "[]"]
  note p1 = polling_schedule [of pf0 storedInstance "[]" ?s1 "''inst1''" "''tok1''" "''loja''" ?d
      None netConnected statusUrl1 "JStr ''connected''" "[]"]
  note p2 = polling_schedule [of pf0 storedInstance "[]" ?s1 "''inst1''" "''tok1''" "''loja''" ?d
      None "netStatus ''qrcode''" statusUrl1 "JStr ''qrcode''" "[]"]
  note p3 = polling_schedule [of pf0 storedInstance "[]" ?s1 "''inst1''" "''tok1''" "''loja''" ?d
      None "\<lambda>u. NetworkError" statusUrl1 "JStr ''qrcode''" "[]"]
  note p4 = polling_schedule [of pf0 storedInstance "[]" ?s2 "''inst1''" "''tok1''" "''loja''" ?d
      None netConnected statusUrl1 "JStr ''connected''" "[]"]
  have r: "timers ?s1 = [(1, 4000)]"
    using p[THEN conjunct2, THEN conjunct1] st by (simp add: clearPollIfAny_timers f)
  note q1 = p1[THEN conjunct2, THEN conjunct2]
  have c: "timers (fst (createWhatsAppInstance pf0 ''loja'' (Response True (Some ?d)) ?s1)) = []"
    using q1[THEN conjunct1] t by (simp add: f1)
  have e: "timers (createResumed pf0 None netConnected ?s) = [(1, 4000)]"
    using p[THEN conjunct2, THEN conjunct2, THEN conjunct2, THEN conjunct1] by (simp add: f)
  note q5 = q1[THEN conjunct2, THEN conjunct2, THEN conjunct2, THEN conjunct2]
  have k: "timers (fst (statusArrived pf0 netConnected statusUrl1 ?s1)) = []"
    using q5[THEN conjunct1] a by (simp add: f1)
  have w: "timers (fst (statusArrived pf0 (netStatus ''qrcode'') statusUrl1 ?s1)) = [(1, 4000)]"
    using p2[THEN conjunct2, THEN conjunct2, THEN conjunct2, THEN conjunct2, THEN conjunct2,
        THEN conjunct2, THEN conjunct2, THEN conjunct1] b
    by (simp add: f1)
  have n: "timers (fst (statusArrived pf0 (\<lambda>u. NetworkError) statusUrl1 ?s1)) = [(1, 4000)]"
    using p3[THEN conjunct2, THEN conjunct2, THEN conjunct2, THEN conjunct2, THEN conjunct2,
        THEN conjunct2, THEN conjunct2, THEN conjunct2, THEN conjunct1] ne
    by (simp add: f1)
  have v: "timers (tabVisible ?s2) = [(2, 4000)]"
    using p4[THEN conjunct2, THEN conjunct2, THEN conjunct2, THEN conjunct2, THEN conjunct2,
        THEN conjunct2, THEN conjunct2, THEN conjunct2, THEN conjunct2, THEN conjunct2,
        THEN conjunct2, THEN conjunct2] f2(4,5)
    by (simp add: f2(1,2,3))
  show ?thesis using st(1) r a b(1,3) k w ne n t c e v by blast
qed

text \<open>
  Two creations that overlap each set an interval, and the handle of the first is lost: both
  run on, and a response that reports the instance connected cancels only the second.  The
  same happens when the tab becomes visible while a creation is suspended.
\<close>

lemma overlapping_creations:
  "timers (waRun pf0 (waInit Map.empty)
     [CreateBegins ''loja'' (Response True (Some (JObj [(''token'', JStr ''tok1'')]))),
      CreateBegins ''loja'' (Response True (Some (JObj [(''token'', JStr ''tok1'')]))),
      CreateResumes (Some (StatusUrl (JStr ''loja'') (JStr ''tok1''))) (\<lambda>u. NetworkError),
      CreateResumes (Some (StatusUrl (JStr ''loja'') (JStr ''tok1''))) (\<lambda>u. NetworkError)])
   = [(1, 4000), (2, 4000)]
   \<and> timers (waRun pf0 (waInit Map.empty)
     [CreateBegins ''loja'' (Response True (Some (JObj [(''token'', JStr ''tok1'')]))),
      CreateBegins ''loja'' (Response True (Some (JObj [(''token'', JStr ''tok1'')]))),
      CreateResumes (Some (StatusUrl (JStr ''loja'') (JStr ''tok1''))) (\<lambda>u. NetworkError),
      CreateResumes (Some (StatusUrl (JStr ''loja'') (JStr ''tok1''))) (\<lambda>u. NetworkError),
      StatusArrives (StatusUrl (JStr ''loja'') (JStr ''tok1'')) netConnected])
   = [(1, 4000)]
   \<and> timers (waRun pf0 (waInit Map.empty)
     [CreateBegins ''loja'' (Response True (Some (JObj [(''token'', JStr ''tok1'')]))),
      Hidden, Visible,
      CreateResumes (Some (StatusUrl (JStr ''loja'') (JStr ''tok1''))) (\<lambda>u. NetworkError)])
   = [(1, 4000), (2, 4000)]"
  by code_simp

text \<open>
  The test that ends the polling is wider than the label: an object that says
  \<^verbatim>\<open>connected: true\<close> and nothing about \<^verbatim>\<open>loggedIn\<close> is labelled with its JSON text, and
  cancels the interval all the same.
\<close>

lemma connected_without_login:
  "friendlyState pf (JObj [(''connected'', JBool True)])
     = (case JSON_stringify pf (JObj [(''connected'', JBool True)]) of
          Some jsonText \<Rightarrow> jsonText | None \<Rightarrow> ''connecting'')
   \<and> timers (fst (statusArrived pf
        (\<lambda>u. Response True (Some (JObj [(''status'', JObj [(''connected'', JBool True)])]))) url s))
     = filter (\<lambda>t. Some (fst t) \<noteq> waPollInterval s) (timers s)"
  by (simp add: friendlyState_def statusArrived_timers arrivedState_def statusRawState_def
      jsOr_def reallyConnected_def clearPollIfAny_timers)

section \<open>Local storage (script.js logout, auth.js saveAuthData)\<close>

text \<open>
  Local storage is a map from keys to strings.  \<^verbatim>\<open>logout\<close> removes four keys (and then leaves
  the page).
\<close>

definition logout :: "(string \<rightharpoonup> string) \<Rightarrow> (string \<rightharpoonup> string)" where
  "logout st = st(''token'' := None, ''org_id'' := None, ''flow_id'' := None, ''user_name'' := None)"

text \<open>The fields \<^verbatim>\<open>saveAuthData\<close> reads off the response of the login or register call.\<close>

definition extractToken :: "json \<Rightarrow> json" where
  "extractToken data =
     jsOr (getProp data ''token'') (jsOr (getProp data ''jwt'') (jsOr (getProp data ''access_token'')
    (jsOr (jsAnd (getProp data ''data'')
             (jsOr (getProp (getProp data ''data'') ''token'')
             (jsOr (getProp (getProp data ''data'') ''jwt'')
                   (getProp (getProp data ''data'') ''access_token''))))
    (jsOr (jsAnd (getProp data ''user'')
             (jsOr (getProp (getProp data ''user'') ''token'')
             (jsOr (getProp (getProp data ''user'') ''jwt'')
                   (getProp (getProp data ''user'') ''access_token''))))
          JNull))))"

definition extractOrg :: "json \<Rightarrow> json" where
  "extractOrg data =
     jsOr (getProp data ''org_id'') (jsOr (getProp data ''orgId'')
    (jsOr (jsAnd (getProp data ''user'')
             (jsOr (getProp (getProp data ''user'') ''org_id'') (getProp (getProp data ''user'') ''orgId'')))
          (JStr ''1'')))"

definition extractFlow :: "json \<Rightarrow> json" where
  "extractFlow data =
     jsOr (getProp data ''flow_id'') (jsOr (getProp data ''flowId'')
    (jsOr (jsAnd (getProp data ''user'')
             (jsOr (getProp (getProp data ''user'') ''flow_id'') (getProp (getProp data ''user'') ''flowId'')))
          (JStr ''1'')))"

definition extractName :: "json \<Rightarrow> json" where
  "extractName d =
     jsOr (getProp d ''name'') (jsOr (getProp d ''username'')
    (jsOr (jsAnd (getProp d ''user'')
             (jsOr (getProp (getProp d ''user'') ''name'')
             (jsOr (getProp (getProp d ''user'') ''username'') (getProp (getProp d ''user'') ''email''))))
          (JStr [])))"

definition extractTax :: "json \<Rightarrow> json" where
  "extractTax d =
     jsOr (getProp d ''tax_id'') (jsOr (getProp d ''taxId'')
    (jsOr (jsAnd (getProp d ''user'')
             (jsOr (getProp (getProp d ''user'') ''tax_id'') (getProp (getProp d ''user'') ''taxId'')))
          (JStr [])))"

text \<open>
  \<^verbatim>\<open>saveAuthData\<close>: \<open>None\<close> when it throws before writing anything (no token in the response,
  or a null response); otherwise the storage it leaves.
\<close>

definition saveAuthData ::
    "platform \<Rightarrow> json \<Rightarrow> (string \<rightharpoonup> string) \<Rightarrow> (string \<rightharpoonup> string) option" where
  "saveAuthData pf data st =
     (if data = JNull \<or> data = JUndefined then None
      else if \<not> truthy (extractToken data) then None
      else
        let st1 = st(''token'' \<mapsto> toStr pf (extractToken data),
                     ''org_id'' \<mapsto> toStr pf (extractOrg data),
                     ''flow_id'' \<mapsto> toStr pf (extractFlow data));
            st2 = (if truthy (extractName data)
                   then st1(''user_name'' \<mapsto> toStr pf (extractName data)) else st1);
            st3 = (if truthy (extractTax data)
                   then st2(''tax_id'' \<mapsto> toStr pf (extractTax data)) else st2)
        in Some st3)"

text \<open>
  Every operation of the two scripts that writes to local storage: the logout, the saving
  of the session after login or registration, the remembered e-mail address, the WhatsApp
  instance and the agent configuration.
\<close>

datatype storage_op =
    Logout
  | SaveAuthData json
  | RememberEmail string
  | PersistInstance json json
  | SaveAgentConfig string

fun storageStep :: "platform \<Rightarrow> (string \<rightharpoonup> string) \<Rightarrow> storage_op \<Rightarrow> (string \<rightharpoonup> string)" where
  "storageStep pf st Logout = logout st"
| "storageStep pf st (SaveAuthData data) = (case saveAuthData pf data st of Some st' \<Rightarrow> st' | None \<Rightarrow> st)"
| "storageStep pf st (RememberEmail email) = st(''remember_email'' \<mapsto> email)"
| "storageStep pf st (PersistInstance inst tok) = persistStorage pf inst tok st"
| "storageStep pf st (SaveAgentConfig config) = st(''agentConfig'' \<mapsto> config)"

definition sessionKeys :: "string set" where
  "sessionKeys = {''token'', ''org_id'', ''flow_id'', ''user_name''}"

text \<open>
  Claim C8.  The logout removes exactly the keys \<^verbatim>\<open>token\<close>, \<^verbatim>\<open>org_id\<close>, \<^verbatim>\<open>flow_id\<close> and
  \<^verbatim>\<open>user_name\<close>; every other key, in particular \<^verbatim>\<open>wa_instance\<close>, \<^verbatim>\<open>wa_token\<close>,
  \<^verbatim>\<open>tax_id\<close>, \<^verbatim>\<open>remember_email\<close> and \<^verbatim>\<open>agentConfig\<close>, keeps its value; and no operation
  other than the logout removes the session token.
\<close>

theorem logout_frame:
  "(\<forall>k. logout st k = (if k \<in> sessionKeys then None else st k))
   \<and> dom (logout st) = dom st - sessionKeys
   \<and> (\<forall>k \<in> {''wa_instance'', ''wa_token'', ''tax_id'', ''remember_email'', ''agentConfig''}.
        logout st k = st k)
   \<and> (op \<noteq> Logout \<and> st ''token'' \<noteq> None \<longrightarrow> storageStep pf st op ''token'' \<noteq> None)"
proof (intro conjI)
  show a: "\<forall>k. logout st k = (if k \<in> sessionKeys then None else st k)"
    by (simp add: logout_def sessionKeys_def)
  show "dom (logout st) = dom st - sessionKeys"
    using a by (auto simp: dom_def)
  show "\<forall>k \<in> {''wa_instance'', ''wa_token'', ''tax_id'', ''remember_email'', ''agentConfig''}.
        logout st k = st k"
    by (simp add: logout_def)
  show "op \<noteq> Logout \<and> st ''token'' \<noteq> None \<longrightarrow> storageStep pf st op ''token'' \<noteq> None"
    by (cases op) (auto simp: saveAuthData_def persistStorage_def Let_def split: option.splits if_splits)
qed

text \<open>An example of a storage after login and after an instance was created.\<close>

definition storeExample :: "string \<rightharpoonup> string" where
  "storeExample = [''token'' \<mapsto> ''jwt1'', ''org_id'' \<mapsto> ''7'', ''flow_id'' \<mapsto> ''1'',
     ''user_name'' \<mapsto> ''Ana'', ''wa_instance'' \<mapsto> ''inst1'', ''wa_token'' \<mapsto> ''tok1'',
     ''agentConfig'' \<mapsto> ''{}'']"

theorem logout_frame_witness:
  "logout storeExample ''token'' = None \<and> logout storeExample ''user_name'' = None
   \<and> logout storeExample ''wa_instance'' = Some ''inst1''
   \<and> logout storeExample ''agentConfig'' = Some ''{}''
   \<and> storeExample ''token'' \<noteq> None
   \<and> storageStep pf0 storeExample (RememberEmail ''ana@loja.com'') ''token'' \<noteq> None"
  using logout_frame [of storeExample "RememberEmail ''ana@loja.com''" pf0]
  by (simp add: storeExample_def sessionKeys_def)

section \<open>Numbers: doubles by their exact values\<close>

text \<open>
  The exponent of a positive rational: \<open>2 powi ilog2 x \<le> x < 2 powi (ilog2 x + 1)\<close>.
\<close>

definition ilog2 :: "rat \<Rightarrow> int" where
  "ilog2 x =
     (let d = bitlen (fst (quotient_of x)) - bitlen (snd (quotient_of x))
      in if 2 powi d \<le> x then d else d - 1)"

text \<open>Rounding to the nearest integer, ties to the even one.\<close>

definition roundHalfEven :: "rat \<Rightarrow> int" where
  "roundHalfEven y =
     (let f = \<lfloor>y\<rfloor>; r = y - of_int f
      in if r < 1 / 2 then f else if 1 / 2 < r then f + 1 else if even f then f else f + 1)"

text \<open>
  The double nearest to a rational (binary64, round to nearest, ties to even): 53 significant
  bits, the spacing of subnormal numbers below \<open>2 powi (- 1022)\<close>, an infinity from
  \<open>2 powi 1024\<close> on.  Every arithmetic operation of the script on numbers is the exact
  operation followed by this rounding.
\<close>

definition roundDouble :: "rat \<Rightarrow> jsnum" where
  "roundDouble x =
     (if x = 0 then Fin 0
      else
        let a = \<bar>x\<bar>;
            q = max (ilog2 a - 52) (- 1074);
            v = of_int (roundHalfEven (a / 2 powi q)) * 2 powi q
        in if 2 powi 1024 \<le> v then (if 0 < x then PosInf else NegInf)
           else Fin (if 0 < x then v else - v))"


lemma bitlen_lower: "0 < (p::int) \<Longrightarrow> (2::rat) powi (bitlen p - 1) \<le> of_int p"
proof -
  assume p: "0 < p"
  then have b: "1 \<le> bitlen p" by (simp add: bitlen_alt_def)
  from bitlen_bounds[OF p] have "2 ^ nat (bitlen p - 1) \<le> p" ..
  then have "(of_int (2 ^ nat (bitlen p - 1)) :: rat) \<le> of_int p" by (simp only: of_int_le_iff)
  moreover have "(2::rat) powi (bitlen p - 1) = 2 ^ nat (bitlen p - 1)"
    using b by (simp add: power_int_def)
  ultimately show ?thesis by simp
qed

lemma bitlen_upper: "0 < (p::int) \<Longrightarrow> of_int p < (2::rat) powi (bitlen p)"
proof -
  assume p: "0 < p"
  then have b: "0 \<le> bitlen p" by (simp add: bitlen_alt_def)
  from bitlen_bounds[OF p] have "p < 2 ^ nat (bitlen p)" ..
  then have "(of_int p :: rat) < of_int (2 ^ nat (bitlen p))" by (simp only: of_int_less_iff)
  moreover have "(2::rat) powi (bitlen p) = 2 ^ nat (bitlen p)"
    using b by (simp add: power_int_def)
  ultimately show ?thesis by simp
qed

lemma ilog2_bounds:
  assumes "0 < x"
  shows "2 powi (ilog2 x) \<le> x" and "x < 2 powi (ilog2 x + 1)"
proof -
  obtain p q where pq: "quotient_of x = (p, q)" by (cases "quotient_of x")
  then have q: "0 < q" by (rule quotient_of_denom_pos)
  have x: "x = of_int p / of_int q" using pq by (rule quotient_of_div)
  with assms q have p: "0 < p" by (simp add: zero_less_divide_iff)
  let ?d = "bitlen p - bitlen q"
  have lo: "2 powi (?d - 1) \<le> x"
  proof -
    have "2 powi (?d - 1) = (2::rat) powi (bitlen p - 1) / 2 powi (bitlen q)"
      by (simp add: power_int_diff)
    also have "\<dots> \<le> of_int p / 2 powi (bitlen q)"
      using bitlen_lower[OF p] by (simp add: divide_right_mono)
    also have "\<dots> \<le> of_int p / of_int q"
      using bitlen_upper[OF q] p q by (intro divide_left_mono) (auto simp: mult_pos_pos)
    finally show ?thesis by (simp add: x)
  qed
  have hi: "x < 2 powi (?d + 1)"
  proof -
    have "x = of_int p / of_int q" by (rule x)
    also have "\<dots> < 2 powi (bitlen p) / of_int q"
      using bitlen_upper[OF p] q by (simp add: divide_strict_right_mono)
    also have "\<dots> \<le> 2 powi (bitlen p) / 2 powi (bitlen q - 1)"
      using bitlen_lower[OF q] q by (intro divide_left_mono) (auto simp: mult_pos_pos)
    also have "\<dots> = 2 powi (?d + 1)"
      by (simp add: power_int_diff power_int_add)
    finally show ?thesis .
  qed
  show "2 powi (ilog2 x) \<le> x"
    using lo by (simp add: ilog2_def pq Let_def)
  show "x < 2 powi (ilog2 x + 1)"
    using hi by (auto simp: ilog2_def pq Let_def not_le)
qed

lemma roundHalfEven_error: "\<bar>of_int (roundHalfEven y) - y\<bar> \<le> 1 / 2"
proof -
  have "of_int \<lfloor>y\<rfloor> \<le> y" "y < of_int \<lfloor>y\<rfloor> + 1" by linarith+
  then show ?thesis
    by (auto simp: roundHalfEven_def Let_def abs_le_iff)
qed

lemma scale_abs: "0 < (s::rat) \<Longrightarrow> \<bar>m - x / s\<bar> * s = \<bar>m * s - x\<bar>"
proof -
  assume s: "0 < s"
  have "\<bar>m - x / s\<bar> * s = \<bar>(m - x / s) * s\<bar>" using s by (simp add: abs_mult)
  also have "(m - x / s) * s = m * s - x" using s by (simp add: left_diff_distrib)
  finally show ?thesis .
qed

lemma roundDouble_ulp:
  assumes "2 powi (- 1022) \<le> x" and "x < 2 powi 1023"
  shows "\<exists>v. roundDouble x = Fin v \<and> \<bar>v - x\<bar> \<le> 2 powi (ilog2 x) / 2 ^ 53"
proof -
  have pos: "0 < x" using assms(1) by (rule less_le_trans[rotated]) simp
  let ?e = "ilog2 x"
  have lo: "2 powi ?e \<le> x" and hi: "x < 2 powi (?e + 1)"
    using ilog2_bounds[OF pos] by auto
  have "(2::rat) powi (- 1022) < 2 powi (?e + 1)"
    using assms(1) hi by linarith
  then have "- 1022 < ?e + 1"
    using power_int_increasing[of "?e + 1" "- 1022" "2::rat"] by (cases "- 1022 < ?e + 1") auto
  then have q: "max (?e - 52) (- 1074) = ?e - 52" by simp
  let ?q = "?e - 52"
  let ?m = "roundHalfEven (x / 2 powi ?q)"
  let ?v = "of_int ?m * 2 powi ?q :: rat"
  have p2: "(0::rat) < 2 powi ?q" by simp
  have "\<bar>of_int ?m - x / 2 powi ?q\<bar> \<le> 1 / 2" by (rule roundHalfEven_error)
  then have "\<bar>of_int ?m - x / 2 powi ?q\<bar> * 2 powi ?q \<le> 1 / 2 * 2 powi ?q"
    using p2 by (intro mult_right_mono) simp_all
  moreover have "\<bar>of_int ?m - x / 2 powi ?q\<bar> * 2 powi ?q = \<bar>?v - x\<bar>"
    using p2 by (rule scale_abs)
  moreover have "1 / 2 * 2 powi ?q = (2::rat) powi ?e / 2 ^ 53"
    by (simp add: power_int_diff)
  ultimately have err: "\<bar>?v - x\<bar> \<le> 2 powi ?e / 2 ^ 53" by simp
  also have "\<dots> \<le> x / 2 ^ 53" using lo by (simp add: divide_right_mono)
  finally have err': "\<bar>?v - x\<bar> \<le> x / 2 ^ 53" .
  have "x / 2 ^ 53 \<le> x / 1" using pos by (intro divide_left_mono) auto
  then have dle: "x / 2 ^ 53 \<le> x" by simp
  have "?v - x \<le> x / 2 ^ 53" using err' by (simp only: abs_le_iff)
  with dle have "?v \<le> x + x" by linarith
  also have "\<dots> < 2 powi 1023 + 2 powi 1023" using assms(2) by (intro add_strict_mono)
  also have "\<dots> = (2::rat) powi 1024" by simp
  finally have "\<not> 2 powi 1024 \<le> ?v" by (simp only: not_le)
  then have "roundDouble x = Fin ?v"
    using pos q by (simp add: roundDouble_def Let_def del: power_int_numeral)
  with err show ?thesis by blast
qed

text \<open>Below \<open>2 powi k\<close> the doubles are \<open>2 powi (k - 53)\<close> apart, or closer.\<close>

lemma roundDouble_below:
  assumes "2 powi (- 1022) \<le> x" and "x < 2 powi k" and "k \<le> 1023"
  shows "\<exists>v. roundDouble x = Fin v \<and> \<bar>v - x\<bar> \<le> 2 powi (k - 54)"
proof -
  have pos: "0 < x" using assms(1) by (rule less_le_trans[rotated]) simp
  have "(2::rat) powi k \<le> 2 powi 1023" using assms(3) by (intro power_int_increasing) simp_all
  then have fin: "x < 2 powi 1023" using assms(2) by linarith
  obtain v where v: "roundDouble x = Fin v" "\<bar>v - x\<bar> \<le> 2 powi (ilog2 x) / 2 ^ 53"
    using roundDouble_ulp[OF assms(1) fin] by blast
  have "2 powi (ilog2 x) \<le> x" using ilog2_bounds(1)[OF pos] .
  then have "(2::rat) powi (ilog2 x) < 2 powi k" using assms(2) by linarith
  then have "ilog2 x < k"
    using power_int_increasing[of k "ilog2 x" "2::rat"] by (cases "ilog2 x < k") auto
  then have "(2::rat) powi (ilog2 x) \<le> 2 powi (k - 1)" by (intro power_int_increasing) simp_all
  then have "2 powi (ilog2 x) / 2 ^ 53 \<le> 2 powi (k - 1) / (2 ^ 53 :: rat)"
    by (rule divide_right_mono) simp
  also have "\<dots> = 2 powi (k - 54)" by (simp add: power_int_diff)
  finally have "\<bar>v - x\<bar> \<le> 2 powi (k - 54)" using v(2) by linarith
  with v(1) show ?thesis by blast
qed

text \<open>\<^verbatim>\<open>x / 100\<close> and \<^verbatim>\<open>x * 100\<close> on numbers.\<close>

definition divBy100 :: "jsnum \<Rightarrow> jsnum" where
  "divBy100 x = (case x of Fin a \<Rightarrow> roundDouble (a / 100) | _ \<Rightarrow> x)"

definition times100 :: "jsnum \<Rightarrow> jsnum" where
  "times100 x = (case x of Fin a \<Rightarrow> roundDouble (a * 100) | _ \<Rightarrow> x)"

text \<open>The conversion to a number that the arithmetic operators and \<^verbatim>\<open>isNaN\<close> apply.\<close>

definition toNumber :: "platform \<Rightarrow> json \<Rightarrow> jsnum" where
  "toNumber pf v =
     (case v of
        JNum n \<Rightarrow> Fin n
      | JBool b \<Rightarrow> Fin (if b then 1 else 0)
      | JNull \<Rightarrow> Fin 0
      | JUndefined \<Rightarrow> NaN
      | JStr s \<Rightarrow> StringToNumber pf s
      | _ \<Rightarrow> StringToNumber pf (toStr pf v))"

text \<open>The decimal digits of a non-negative integer.\<close>

definition digitChar :: "int \<Rightarrow> char" where
  "digitChar d =
     (case map_of (zip [0, 1, 2, 3, 4, 5, 6, 7, 8, 9] ''0123456789'') d of
        Some c \<Rightarrow> c
      | None \<Rightarrow> CHR ''0'')"

function showNat :: "int \<Rightarrow> string" where
  "showNat n = (if n < 10 then [digitChar n] else showNat (n div 10) @ [digitChar (n mod 10)])"
  by pat_completeness auto
termination
  by (relation "measure nat") auto

declare showNat.simps [simp del]

text \<open>
  \<^verbatim>\<open>x.toFixed(2)\<close>: for a magnitude below \<open>10 ^ 21\<close>, the integer \<open>n\<close> nearest to
  \<open>100 * x\<close> (the larger one on a tie), written with its last two digits after the point;
  from \<open>10 ^ 21\<close> on, the platform's rendering of the number.
\<close>

definition fixed2 :: "rat \<Rightarrow> string" where
  "fixed2 a =
     (let n = \<lfloor>a * 100 + 1 / 2\<rfloor>
      in showNat (n div 100) @ ''.'' @ [digitChar (n div 10 mod 10), digitChar (n mod 10)])"

definition toFixed2 :: "platform \<Rightarrow> jsnum \<Rightarrow> string" where
  "toFixed2 pf x =
     (case x of
        NaN \<Rightarrow> ''NaN''
      | PosInf \<Rightarrow> ''Infinity''
      | NegInf \<Rightarrow> ''-Infinity''
      | Fin a \<Rightarrow>
          (if a < 0 then ''-'' else []) @
          (if 10 ^ 21 \<le> \<bar>a\<bar> then Number_toString pf \<bar>a\<bar> else fixed2 \<bar>a\<bar>))"

text \<open>
  \<^verbatim>\<open>parseFloat\<close>: leading white space is skipped, then the longest prefix that is a decimal
  literal (sign, \<^verbatim>\<open>Infinity\<close>, or digits with an optional fraction and exponent) is
  read and rounded to a double; NaN when there is no such prefix.
\<close>

definition isDigit :: "char \<Rightarrow> bool" where
  "isDigit c \<longleftrightarrow> c \<in> set ''0123456789''"

definition digitVal :: "char \<Rightarrow> int" where
  "digitVal c =
     (case map_of (zip ''0123456789'' [0, 1, 2, 3, 4, 5, 6, 7, 8, 9]) c of
        Some d \<Rightarrow> d
      | None \<Rightarrow> 0)"

definition digitsVal :: "string \<Rightarrow> int" where
  "digitsVal ds = foldl (\<lambda>acc c. 10 * acc + digitVal c) 0 ds"

definition parseExponent :: "string \<Rightarrow> int" where
  "parseExponent r =
     (case r of
        [] \<Rightarrow> 0
      | c # r1 \<Rightarrow>
          if c = CHR ''e'' \<or> c = CHR ''E'' then
            (case r1 of
               [] \<Rightarrow> 0
             | s # r2 \<Rightarrow>
                 if s = CHR ''+'' then digitsVal (takeWhile isDigit r2)
                 else if s = CHR ''-'' then - digitsVal (takeWhile isDigit r2)
                 else digitsVal (takeWhile isDigit r1))
          else 0)"

definition parseUnsigned :: "string \<Rightarrow> rat option" where
  "parseUnsigned r =
     (let ip = takeWhile isDigit r;
          r1 = dropWhile isDigit r;
          fp = (case r1 of [] \<Rightarrow> [] | c # r2 \<Rightarrow> if c = CHR ''.'' then takeWhile isDigit r2 else []);
          r3 = (case r1 of [] \<Rightarrow> [] | c # r2 \<Rightarrow> if c = CHR ''.'' then dropWhile isDigit r2 else r1)
      in if ip = [] \<and> fp = [] then None
         else Some ((of_int (digitsVal ip) + of_int (digitsVal fp) / 10 ^ length fp)
                    * 10 powi parseExponent r3))"

definition negNum :: "jsnum \<Rightarrow> jsnum" where
  "negNum x = (case x of Fin a \<Rightarrow> Fin (- a) | PosInf \<Rightarrow> NegInf | NegInf \<Rightarrow> PosInf | NaN \<Rightarrow> NaN)"

definition parseMagnitude :: "string \<Rightarrow> jsnum" where
  "parseMagnitude r =
     (if prefix ''Infinity'' r then PosInf
      else case parseUnsigned r of None \<Rightarrow> NaN | Some v \<Rightarrow> roundDouble v)"

definition parseFloat :: "string \<Rightarrow> jsnum" where
  "parseFloat s =
     (case dropWhile isWhiteSpace s of
        [] \<Rightarrow> NaN
      | c # r \<Rightarrow>
          if c = CHR ''+'' then parseMagnitude r
          else if c = CHR ''-'' then negNum (parseMagnitude r)
          else parseMagnitude (c # r))"

text \<open>\<^verbatim>\<open>s.replace(a, b)\<close> with a one-character pattern: the first occurrence only.\<close>

definition replaceFirst :: "char \<Rightarrow> char \<Rightarrow> string \<Rightarrow> string" where
  "replaceFirst a b s =
     (case dropWhile (\<lambda>c. c \<noteq> a) s of
        [] \<Rightarrow> s
      | _ # rest \<Rightarrow> takeWhile (\<lambda>c. c \<noteq> a) s @ b # rest)"

text \<open>\<^verbatim>\<open>Math.round\<close>, \<^verbatim>\<open>isNaN\<close> and \<^verbatim>\<open>num < 0\<close> on numbers.\<close>

definition mathRound :: "jsnum \<Rightarrow> jsnum" where
  "mathRound x = (case x of Fin a \<Rightarrow> Fin (of_int \<lfloor>a + 1 / 2\<rfloor>) | _ \<Rightarrow> x)"

definition isNaN :: "jsnum \<Rightarrow> bool" where
  "isNaN x \<longleftrightarrow> x = NaN"

definition lessThanZero :: "jsnum \<Rightarrow> bool" where
  "lessThanZero x = (case x of Fin a \<Rightarrow> a < 0 | NegInf \<Rightarrow> True | _ \<Rightarrow> False)"

section \<open>Cents and reais (script.js, centsToReais and reaisToCents)\<close>

definition centsToReais :: "platform \<Rightarrow> json \<Rightarrow> string" where
  "centsToReais pf cents =
     (if \<not> truthy cents \<or> isNaN (toNumber pf cents) then ''0,00''
      else replaceFirst (CHR ''.'') (CHR '','') (toFixed2 pf (divBy100 (toNumber pf cents))))"

definition reaisToCents :: "platform \<Rightarrow> json \<Rightarrow> jsnum" where
  "reaisToCents pf v =
     (if v = JNull \<or> v = JUndefined then Fin 0
      else
        let str = trim (toStr pf v) in
        if str = [] then Fin 0
        else
          let num = parseFloat (replaceFirst (CHR '','') (CHR ''.'') (filter (\<lambda>c. c \<noteq> CHR ''.'') str))
          in if isNaN num \<or> lessThanZero num then Fin 0
             else mathRound (times100 num))"

subsection \<open>Dividing an amount of cents by 100\<close>

lemma roundDouble_zero [simp]: "roundDouble 0 = Fin 0"
  by (simp add: roundDouble_def)

lemma small_is_normal: "1 / 100 \<le> (x::rat) \<Longrightarrow> 2 powi (- 1022) \<le> x"
proof -
  assume "1 / 100 \<le> x"
  moreover have "(2::rat) powi (- 1022) \<le> 2 powi (- 7)" by (rule power_int_increasing) simp_all
  moreover have "(2::rat) powi (- 7) \<le> 1 / 100" by (simp add: power_int_minus)
  ultimately show ?thesis by linarith
qed

lemma below_2_53_is_finite: "(x::rat) < 2 ^ 53 \<Longrightarrow> x < 2 powi 1023"
proof -
  assume "x < 2 ^ 53"
  moreover have "(2::rat) powi 53 \<le> 2 powi 1023" by (rule power_int_increasing) simp_all
  ultimately show ?thesis by simp
qed

text \<open>The quotient of an amount of cents by 100, as a double.\<close>

lemma cents_div_below:
  fixes c :: int
  assumes "0 < c" and "of_int c < (100::rat) * 2 powi k" and "k \<le> 1023"
  shows "\<exists>v. roundDouble (of_int c / 100) = Fin v \<and> \<bar>v * 100 - of_int c\<bar> \<le> 100 * 2 powi (k - 54)"
proof -
  let ?x = "of_int c / 100 :: rat"
  have c1: "(1::rat) \<le> of_int c" using assms(1) by simp
  have "2 powi (- 1022) \<le> ?x" using c1 by (intro small_is_normal) simp
  moreover have "?x < 2 powi k" using assms(2) by simp
  ultimately obtain v where v: "roundDouble ?x = Fin v" "\<bar>v - ?x\<bar> \<le> 2 powi (k - 54)"
    using roundDouble_below[OF _ _ assms(3)] by blast
  have "\<bar>v * 100 - of_int c\<bar> = \<bar>v - ?x\<bar> * 100"
    using scale_abs[of 100 v "of_int c"] by simp
  also have "\<dots> \<le> 2 powi (k - 54) * 100" using v(2) by (intro mult_right_mono) simp_all
  finally have "\<bar>v * 100 - of_int c\<bar> \<le> 100 * 2 powi (k - 54)" by (simp only: mult.commute)
  with v(1) show ?thesis by blast
qed

lemma floor_half_unique:
  "\<bar>w - of_int c\<bar> < 1 / 2 \<Longrightarrow> \<lfloor>(w::rat) + 1 / 2\<rfloor> = c"
  by (rule floor_unique) linarith+

text \<open>
  Up to \<open>100 * 2 ^ 46\<close> cents the quotient is within half a cent of the amount: the doubles
  below \<open>2 ^ 46\<close> are \<open>2 powi (- 7)\<close> apart, and \<open>2 ^ 46\<close> is one of them.
\<close>

lemma cents_div_top: "roundDouble (of_int 7036874417766400 / 100) = Fin 70368744177664"
  by code_simp

lemma cents_div_rounds_back:
  assumes "0 < c" "c \<le> 7036874417766400"
  shows "\<exists>v. roundDouble (of_int c / 100) = Fin v \<and> 0 < v \<and> v < 10 ^ 21 \<and> \<lfloor>v * 100 + 1 / 2\<rfloor> = c"
proof (cases "c = 7036874417766400")
  case True
  have "\<lfloor>(70368744177664::rat) * 100 + 1 / 2\<rfloor> = 7036874417766400"
    by (rule floor_unique) simp_all
  then show ?thesis
    unfolding True using cents_div_top by (intro exI[of _ 70368744177664]) simp
next
  case False
  with assms(2) have "c \<le> 7036874417766400 - 1" by simp
  then have "(of_int c :: rat) \<le> of_int (7036874417766400 - 1)" by (simp only: of_int_le_iff)
  then have c2: "(of_int c :: rat) \<le> 7036874417766399" by simp
  then have lt: "(of_int c :: rat) < 100 * 2 powi 46" by simp
  obtain v where v: "roundDouble (of_int c / 100) = Fin v"
      "\<bar>v * 100 - of_int c\<bar> \<le> 100 * 2 powi (46 - 54)"
    using cents_div_below[OF assms(1) lt] by auto
  have c1: "(1::rat) \<le> of_int c" using assms(1) by simp
  have "(100::rat) * 2 powi (46 - 54) < 1 / 2" by (simp add: power_int_minus)
  with v(2) have lt2: "\<bar>v * 100 - of_int c\<bar> < 1 / 2" by linarith
  then have "\<lfloor>v * 100 + 1 / 2\<rfloor> = c" by (rule floor_half_unique)
  moreover from lt2 c1 have "0 < v" by linarith
  moreover have "v < 10 ^ 21"
  proof -
    have "(7036874417766399::rat) + 1 / 2 < 100 * 10 ^ 21" by simp
    with lt2 c2 show ?thesis by linarith
  qed
  ultimately show ?thesis using v(1) by blast
qed

section \<open>The product list (script.js, fetchProducts and updateProductTable)\<close>

text \<open>An entry of the in-memory \<^verbatim>\<open>products\<close> array.\<close>

record product =
  prodId :: json
  prodName :: json
  description :: json
  category :: json
  price :: jsnum
  priceCents :: json
  stock :: json
  prodStatus :: json
  imageRaw :: json
  prodImage :: json

text \<open>
  The callback of \<^verbatim>\<open>(data.items || []).map\<close>.  \<open>buildProduct\<close> is the entry it returns
  for an item; on a null item reading the first field throws, which \<open>mkProduct\<close> renders
  as \<open>None\<close>.
\<close>

definition buildProduct :: "platform \<Rightarrow> string \<Rightarrow> json \<Rightarrow> product" where
  "buildProduct pf backendBase p =
     (let raw = jsOr (getProp p ''image_url'') (getProp p ''image_base64'');
          lower = toLowerCase (toStr pf raw)
      in \<lparr>prodId = getProp p ''id'',
          prodName = getProp p ''title'',
          description = jsOr (getProp p ''slug'') (JStr []),
          category = jsOr (getProp p ''category'') (JStr ''Sem categoria''),
          price = (if truthy (getProp p ''price_cents'')
                   then divBy100 (toNumber pf (getProp p ''price_cents'')) else Fin 0),
          priceCents = jsOr (getProp p ''price_cents'') (JNum 0),
          stock = jsOr (getProp p ''stock'') (JNum 0),
          prodStatus = jsOr (getProp p ''status'') (JStr ''active''),
          imageRaw = jsOr raw (JStr []),
          prodImage =
            (if truthy raw then
               (if startsWith lower ''http'' \<or> startsWith lower ''data:'' then raw
                else if startsWith lower ''/'' then JStr (backendBase @ toStr pf raw)
                else JStr (''data:image/png;base64,'' @ toStr pf raw))
             else JNull)\<rparr>)"

definition mkProduct :: "platform \<Rightarrow> string \<Rightarrow> json \<Rightarrow> product option" where
  "mkProduct pf backendBase p =
     (if p = JNull \<or> p = JUndefined then None else Some (buildProduct pf backendBase p))"

text \<open>\<^verbatim>\<open>map\<close> with a callback that may throw: the first exception ends it.\<close>

fun mapAll :: "('a \<Rightarrow> 'b option) \<Rightarrow> 'a list \<Rightarrow> 'b list option" where
  "mapAll f [] = Some []"
| "mapAll f (x # xs) =
     (case f x of
        None \<Rightarrow> None
      | Some y \<Rightarrow> (case mapAll f xs of None \<Rightarrow> None | Some ys \<Rightarrow> Some (y # ys)))"

text \<open>
  The array built from a parsed body; \<open>None\<close> when building it throws (a null body, items
  that are not an array, a null item).
\<close>

definition productsOf :: "platform \<Rightarrow> string \<Rightarrow> json \<Rightarrow> product list option" where
  "productsOf pf backendBase data =
     (if data = JNull \<or> data = JUndefined then None
      else case jsOr (getProp data ''items'') (JArr []) of
             JArr ps \<Rightarrow> mapAll (mkProduct pf backendBase) ps
           | _ \<Rightarrow> None)"

text \<open>
  \<^verbatim>\<open>fetchProducts\<close>: the value of \<^verbatim>\<open>products\<close> after the call.  The assignment is the last
  step of the \<^verbatim>\<open>try\<close> block, so every exception leaves the old array in place.
\<close>

definition fetchProducts ::
    "platform \<Rightarrow> string \<Rightarrow> fetch_result \<Rightarrow> product list \<Rightarrow> product list" where
  "fetchProducts pf backendBase res products =
     (case res of
        NetworkError \<Rightarrow> products
      | Response isOk parsed \<Rightarrow>
          if \<not> isOk then products
          else (case parsed of
             None \<Rightarrow> products
           | Some data \<Rightarrow>
               (case productsOf pf backendBase data of
                  None \<Rightarrow> products
                | Some rebuilt \<Rightarrow> rebuilt)))"

text \<open>The price cell of a row of the product table.\<close>

definition priceCell :: "platform \<Rightarrow> product \<Rightarrow> string" where
  "priceCell pf pr = ''R$ '' @ toFixed2 pf (price pr)"

lemma mapAll_map: "(\<And>x. x \<in> set xs \<Longrightarrow> f x = Some (g x)) \<Longrightarrow> mapAll f xs = Some (map g xs)"
  by (induction xs) simp_all

lemma mapAll_None: "x \<in> set xs \<Longrightarrow> f x = None \<Longrightarrow> mapAll f xs = None"
  by (induction xs) (auto split: option.splits)

text \<open>
  A body that is not null, whose \<^verbatim>\<open>items\<close> are an array (or absent) without a null item,
  is turned into one entry per item, in order.
\<close>

lemma productsOf_succeeds:
  assumes "data \<noteq> JNull" "data \<noteq> JUndefined"
    and "jsOr (getProp data ''items'') (JArr []) = JArr ps"
    and "JNull \<notin> set ps" "JUndefined \<notin> set ps"
  shows "productsOf pf base data = Some (map (buildProduct pf base) ps)"
proof -
  have "mapAll (mkProduct pf base) ps = Some (map (buildProduct pf base) ps)"
    using assms(4,5) by (intro mapAll_map) (auto simp: mkProduct_def)
  then show ?thesis using assms(1,2,3) by (simp add: productsOf_def)
qed

lemma productsOf_fails:
  assumes "jsOr (getProp data ''items'') (JArr []) = JArr ps" and "JNull \<in> set ps \<or> JUndefined \<in> set ps"
  shows "productsOf pf base data = None"
proof -
  from assms(2) obtain x where "x \<in> set ps" "mkProduct pf base x = None"
    by (auto simp: mkProduct_def)
  then have "mapAll (mkProduct pf base) ps = None" by (rule mapAll_None)
  then show ?thesis using assms(1) by (simp add: productsOf_def)
qed

text \<open>
  Claim C7.  When the product-list fetch fails (the fetch is rejected, the status is not OK,
  or the body does not parse) the in-memory products array is left as it was; so it is when
  the body is null, when its \<^verbatim>\<open>items\<close> are not an array, and when an item is null.  On every
  other response the array is rebuilt from the response items alone, whatever it held before:
  one entry per item, in order, with the fields of the item.
\<close>

theorem fetchProducts_keeps_or_rebuilds:
  "((\<forall>data. res \<noteq> Response True (Some data)) \<longrightarrow>
       fetchProducts pf base res products = products)
   \<and> (res = Response True (Some data)
        \<and> (data = JNull \<or> data = JUndefined
            \<or> (\<forall>ps. jsOr (getProp data ''items'') (JArr []) \<noteq> JArr ps)
            \<or> (\<exists>ps. jsOr (getProp data ''items'') (JArr []) = JArr ps
                  \<and> (JNull \<in> set ps \<or> JUndefined \<in> set ps))) \<longrightarrow>
       fetchProducts pf base res products = products)
   \<and> (res = Response True (Some data) \<and> data \<noteq> JNull \<and> data \<noteq> JUndefined
        \<and> jsOr (getProp data ''items'') (JArr []) = JArr ps
        \<and> JNull \<notin> set ps \<and> JUndefined \<notin> set ps \<longrightarrow>
       fetchProducts pf base res products = map (buildProduct pf base) ps)
   \<and> prodId (buildProduct pf base p) = getProp p ''id''
   \<and> prodName (buildProduct pf base p) = getProp p ''title''
   \<and> description (buildProduct pf base p) = jsOr (getProp p ''slug'') (JStr [])
   \<and> category (buildProduct pf base p) = jsOr (getProp p ''category'') (JStr ''Sem categoria'')
   \<and> priceCents (buildProduct pf base p) = jsOr (getProp p ''price_cents'') (JNum 0)
   \<and> stock (buildProduct pf base p) = jsOr (getProp p ''stock'') (JNum 0)
   \<and> prodStatus (buildProduct pf base p) = jsOr (getProp p ''status'') (JStr ''active'')
   \<and> imageRaw (buildProduct pf base p)
       = jsOr (jsOr (getProp p ''image_url'') (getProp p ''image_base64'')) (JStr [])"
proof -
  have a: "(\<forall>data. res \<noteq> Response True (Some data)) \<longrightarrow>
       fetchProducts pf base res products = products"
    by (auto simp: fetchProducts_def split: fetch_result.splits option.splits)
  have b: "res = Response True (Some data)
        \<and> (data = JNull \<or> data = JUndefined
            \<or> (\<forall>ps. jsOr (getProp data ''items'') (JArr []) \<noteq> JArr ps)
            \<or> (\<exists>ps. jsOr (getProp data ''items'') (JArr []) = JArr ps
                  \<and> (JNull \<in> set ps \<or> JUndefined \<in> set ps))) \<longrightarrow>
       fetchProducts pf base res products = products"
  proof (intro impI, elim conjE)
    assume r: "res = Response True (Some data)"
    assume "data = JNull \<or> data = JUndefined
            \<or> (\<forall>ps. jsOr (getProp data ''items'') (JArr []) \<noteq> JArr ps)
            \<or> (\<exists>ps. jsOr (getProp data ''items'') (JArr []) = JArr ps
                  \<and> (JNull \<in> set ps \<or> JUndefined \<in> set ps))"
    then consider "data = JNull \<or> data = JUndefined"
      | "\<forall>ps. jsOr (getProp data ''items'') (JArr []) \<noteq> JArr ps"
      | ps where "jsOr (getProp data ''items'') (JArr []) = JArr ps" "JNull \<in> set ps \<or> JUndefined \<in> set ps"
      by blast
    then have "productsOf pf base data = None"
    proof cases
      case 1
      then show ?thesis by (auto simp: productsOf_def)
    next
      case 2
      then show ?thesis by (auto simp: productsOf_def split: json.splits)
    next
      case 3
      then show ?thesis by (rule productsOf_fails)
    qed
    with r show "fetchProducts pf base res products = products"
      by (simp add: fetchProducts_def)
  qed
  have c: "res = Response True (Some data) \<and> data \<noteq> JNull \<and> data \<noteq> JUndefined
        \<and> jsOr (getProp data ''items'') (JArr []) = JArr ps
        \<and> JNull \<notin> set ps \<and> JUndefined \<notin> set ps \<longrightarrow>
       fetchProducts pf base res products = map (buildProduct pf base) ps"
    using productsOf_succeeds[of data ps pf base] by (auto simp: fetchProducts_def)
  have d: "prodId (buildProduct pf base p) = getProp p ''id''"
    "prodName (buildProduct pf base p) = getProp p ''title''"
    "description (buildProduct pf base p) = jsOr (getProp p ''slug'') (JStr [])"
    "category (buildProduct pf base p) = jsOr (getProp p ''category'') (JStr ''Sem categoria'')"
    "priceCents (buildProduct pf base p) = jsOr (getProp p ''price_cents'') (JNum 0)"
    "stock (buildProduct pf base p) = jsOr (getProp p ''stock'') (JNum 0)"
    "prodStatus (buildProduct pf base p) = jsOr (getProp p ''status'') (JStr ''active'')"
    "imageRaw (buildProduct pf base p)
       = jsOr (jsOr (getProp p ''image_url'') (getProp p ''image_base64'')) (JStr [])"
    by (simp_all add: buildProduct_def Let_def)
  from a b c d show ?thesis by (intro conjI)
qed

text \<open>An item and the entry built from it, to evaluate examples on.\<close>

definition itemExample :: json where
  "itemExample = JObj [(''id'', JNum 1), (''title'', JStr ''Caneca''), (''price_cents'', JNum 1250)]"

definition productExample :: product where
  "productExample =
     \<lparr>prodId = JNum 1, prodName = JStr ''Caneca'', description = JStr [],
      category = JStr ''Sem categoria'', price = Fin (25 / 2), priceCents = JNum 1250,
      stock = JNum 0, prodStatus = JStr ''active'', imageRaw = JStr [], prodImage = JNull\<rparr>"

lemma divBy100_1250: "divBy100 (Fin 1250) = Fin (25 / 2)"
  by code_simp

lemma buildProduct_example: "buildProduct pf0 ''https://api'' itemExample = productExample"
  by (simp add: buildProduct_def itemExample_def productExample_def Let_def jsOr_def toNumber_def
      divBy100_1250)

theorem fetchProducts_keeps_or_rebuilds_witness:
  "fetchProducts pf0 ''https://api'' NetworkError [productExample] = [productExample]
   \<and> fetchProducts pf0 ''https://api'' (Response False None) [productExample] = [productExample]
   \<and> fetchProducts pf0 ''https://api'' (Response True None) [productExample] = [productExample]
   \<and> fetchProducts pf0 ''https://api'' (Response True (Some (JObj [(''items'', JArr [JNull])]))) [productExample]
       = [productExample]
   \<and> fetchProducts pf0 ''https://api'' (Response True (Some (JObj [(''items'', JStr ''abc'')]))) [productExample]
       = [productExample]
   \<and> fetchProducts pf0 ''https://api'' (Response True (Some (JObj [(''items'', JArr [itemExample, itemExample])]))) []
       = [productExample, productExample]
   \<and> fetchProducts pf0 ''https://api'' (Response True (Some (JObj []))) [productExample] = []"
proof -
  let ?b = "''https://api''"
  let ?d1 = "JObj [(''items'', JArr [JNull])]"
  let ?d2 = "JObj [(''items'', JStr ''abc'')]"
  let ?d3 = "JObj [(''items'', JArr [itemExample, itemExample])]"
  let ?d4 = "JObj []"
  have n: "itemExample \<noteq> JNull" "itemExample \<noteq> JUndefined" by (simp_all add: itemExample_def)
  have w1: "fetchProducts pf0 ?b NetworkError [productExample] = [productExample]"
    using fetchProducts_keeps_or_rebuilds [of NetworkError pf0 ?b "[productExample]" ?d1 "[]" JNull,
        THEN conjunct1]
    by simp
  have w2: "fetchProducts pf0 ?b (Response False None) [productExample] = [productExample]"
    using fetchProducts_keeps_or_rebuilds [of "Response False None" pf0 ?b "[productExample]" ?d1 "[]" JNull,
        THEN conjunct1]
    by simp
  have w3: "fetchProducts pf0 ?b (Response True None) [productExample] = [productExample]"
    using fetchProducts_keeps_or_rebuilds [of "Response True None" pf0 ?b "[productExample]" ?d1 "[]" JNull,
        THEN conjunct1]
    by simp
  have w4: "fetchProducts pf0 ?b (Response True (Some ?d1)) [productExample] = [productExample]"
    using fetchProducts_keeps_or_rebuilds [of "Response True (Some ?d1)" pf0 ?b "[productExample]" ?d1 "[]" JNull,
        THEN conjunct2, THEN conjunct1]
    by (simp add: jsOr_def)
  have w5: "fetchProducts pf0 ?b (Response True (Some ?d2)) [productExample] = [productExample]"
    using fetchProducts_keeps_or_rebuilds [of "Response True (Some ?d2)" pf0 ?b "[productExample]" ?d2 "[]" JNull,
        THEN conjunct2, THEN conjunct1]
    by (simp add: jsOr_def)
  have w6: "fetchProducts pf0 ?b (Response True (Some ?d3)) [] = [productExample, productExample]"
    using fetchProducts_keeps_or_rebuilds [of "Response True (Some ?d3)" pf0 ?b "[]" ?d3
        "[itemExample, itemExample]" JNull, THEN conjunct2, THEN conjunct2, THEN conjunct1] n
    by (simp add: jsOr_def buildProduct_example)
  have w7: "fetchProducts pf0 ?b (Response True (Some ?d4)) [productExample] = []"
    using fetchProducts_keeps_or_rebuilds [of "Response True (Some ?d4)" pf0 ?b "[productExample]" ?d4
        "[]" JNull, THEN conjunct2, THEN conjunct2, THEN conjunct1]
    by (simp add: jsOr_def)
  from w1 w2 w3 w4 w5 w6 w7 show ?thesis by (intro conjI)
qed

subsection \<open>The price cell\<close>

lemma fixed2_of_cents:
  "\<lfloor>v * 100 + 1 / 2\<rfloor> = c \<Longrightarrow>
   fixed2 v = showNat (c div 100) @ ''.'' @ [digitChar (c div 10 mod 10), digitChar (c mod 10)]"
  by (simp add: fixed2_def Let_def)

lemma fixed2_zero: "fixed2 0 = ''0.00''"
proof -
  have "\<lfloor>(0::rat) * 100 + 1 / 2\<rfloor> = 0" by (rule floor_unique) simp_all
  then have "fixed2 0 = showNat (0 div 100) @ ''.'' @ [digitChar (0 div 10 mod 10), digitChar (0 mod 10)]"
    by (rule fixed2_of_cents)
  then show ?thesis by (simp add: showNat.simps digitChar_def)
qed

lemma toFixed2_cents:
  assumes "0 < c" "c \<le> 7036874417766400"
  shows "toFixed2 pf (divBy100 (Fin (of_int c)))
         = showNat (c div 100) @ ''.'' @ [digitChar (c div 10 mod 10), digitChar (c mod 10)]"
proof -
  obtain v where v: "roundDouble (of_int c / 100) = Fin v" "0 < v" "v < 10 ^ 21"
      "\<lfloor>v * 100 + 1 / 2\<rfloor> = c"
    using cents_div_rounds_back[OF assms] by blast
  then have "toFixed2 pf (divBy100 (Fin (of_int c))) = fixed2 v"
    by (simp add: toFixed2_def divBy100_def)
  with v(4) show ?thesis by (simp only: fixed2_of_cents)
qed

text \<open>Rounding is symmetric: the double nearest to \<open>- x\<close> is the opposite of the one nearest to \<open>x\<close>.\<close>

lemma roundDouble_minus:
  assumes "0 < x" and "roundDouble x = Fin v"
  shows "roundDouble (- x) = Fin (- v)"
  using assms by (simp add: roundDouble_def Let_def split: if_splits)

lemma toFixed2_debt:
  assumes "0 < m" "m \<le> 7036874417766400"
  shows "toFixed2 pf (divBy100 (Fin (of_int (- m))))
         = ''-'' @ showNat (m div 100) @ ''.'' @ [digitChar (m div 10 mod 10), digitChar (m mod 10)]"
proof -
  obtain v where v: "roundDouble (of_int m / 100) = Fin v" "0 < v" "v < 10 ^ 21"
      "\<lfloor>v * 100 + 1 / 2\<rfloor> = m"
    using cents_div_rounds_back[OF assms] by blast
  have "(0::rat) < of_int m / 100" using assms(1) by simp
  then have "roundDouble (- (of_int m / 100)) = Fin (- v)" using v(1) by (rule roundDouble_minus)
  then have "toFixed2 pf (divBy100 (Fin (of_int (- m)))) = ''-'' @ fixed2 v"
    using v(2,3) by (simp add: toFixed2_def divBy100_def)
  with v(4) show ?thesis by (simp only: fixed2_of_cents)
qed

text \<open>
  Claim C5, as amended.  For every item of a successful products response whose
  \<^verbatim>\<open>price_cents\<close> is a whole number of cents \<open>c\<close> other than 0, of magnitude at most
  \<open>7036874417766400\<close> (that is \<open>100 * 2 ^ 46\<close>), the price cell reads \<^verbatim>\<open>R$\<close>, a space, a minus
  sign when \<open>c\<close> is negative, the digits of \<open>\<bar>c\<bar> div 100\<close>, a point, and the two digits of
  \<open>\<bar>c\<bar> mod 100\<close>, so \<^verbatim>\<open>price_cents: 1250\<close> gives \<^verbatim>\<open>R$ 12.50\<close>; an item whose
  \<^verbatim>\<open>price_cents\<close> is absent, 0 or otherwise falsy gives \<^verbatim>\<open>R$ 0.00\<close>.
\<close>

theorem price_display:
  "mkProduct pf base item = Some pr \<longrightarrow>
     (getProp item ''price_cents'' = JNum (of_int c) \<and> c \<noteq> 0 \<and> \<bar>c\<bar> \<le> 7036874417766400 \<longrightarrow>
        priceCell pf pr
          = ''R$ '' @ (if c < 0 then ''-'' else []) @ showNat (\<bar>c\<bar> div 100) @ ''.''
            @ [digitChar (\<bar>c\<bar> div 10 mod 10), digitChar (\<bar>c\<bar> mod 10)])
   \<and> (\<not> truthy (getProp item ''price_cents'') \<longrightarrow> priceCell pf pr = ''R$ 0.00'')"
proof (intro impI conjI)
  assume m: "mkProduct pf base item = Some pr"
  then have pr: "pr = buildProduct pf base item"
    by (auto simp: mkProduct_def split: if_splits)
  {
    assume c: "getProp item ''price_cents'' = JNum (of_int c) \<and> c \<noteq> 0 \<and> \<bar>c\<bar> \<le> 7036874417766400"
    then have p: "price pr = divBy100 (Fin (of_int c))"
      by (simp add: pr buildProduct_def Let_def toNumber_def)
    show "priceCell pf pr
          = ''R$ '' @ (if c < 0 then ''-'' else []) @ showNat (\<bar>c\<bar> div 100) @ ''.''
            @ [digitChar (\<bar>c\<bar> div 10 mod 10), digitChar (\<bar>c\<bar> mod 10)]"
    proof (cases "c < 0")
      case True
      define m where "m = - c"
      have m: "0 < m" "m \<le> 7036874417766400" "c = - m" "\<bar>c\<bar> = m"
        using True c by (simp_all add: m_def)
      show ?thesis
        unfolding priceCell_def p m(4) unfolding m(3) using m(1) toFixed2_debt[OF m(1,2), of pf]
        by simp
    next
      case False
      with c have m: "0 < c" "c \<le> 7036874417766400" "\<bar>c\<bar> = c" by simp_all
      show ?thesis
        unfolding priceCell_def p m(3) using m(1) toFixed2_cents[OF m(1,2), of pf]
        by simp
    qed
  }
  {
    assume "\<not> truthy (getProp item ''price_cents'')"
    then have "price pr = Fin 0"
      by (simp add: pr buildProduct_def Let_def)
    then show "priceCell pf pr = ''R$ 0.00''"
      by (simp add: priceCell_def toFixed2_def fixed2_zero)
  }
qed

theorem price_display_witness:
  "priceCell pf0 (buildProduct pf0 ''https://api'' (JObj [(''title'', JStr ''Caneca''), (''price_cents'', JNum 1250)]))
     = ''R$ 12.50''
   \<and> priceCell pf0 (buildProduct pf0 ''https://api'' (JObj [(''price_cents'', JNum (- 1250))])) = ''R$ -12.50''
   \<and> priceCell pf0 (buildProduct pf0 ''https://api'' (JObj [(''title'', JStr ''Brinde'')])) = ''R$ 0.00''
   \<and> priceCell pf0 (buildProduct pf0 ''https://api'' (JObj [(''price_cents'', JNum 0)])) = ''R$ 0.00''"
proof -
  have m: "mkProduct pf0 base (JObj kvs) = Some (buildProduct pf0 base (JObj kvs))" for base kvs
    by (simp add: mkProduct_def)
  have s: "showNat 12 = ''12''" by (simp add: showNat.simps digitChar_def)
  note w1 = price_display [of pf0 "''https://api''" "JObj [(''title'', JStr ''Caneca''), (''price_cents'', JNum 1250)]"
        _ 1250, THEN mp, OF m]
  note w2 = price_display [of pf0 "''https://api''" "JObj [(''price_cents'', JNum (- 1250))]" _ "- 1250",
        THEN mp, OF m]
  note w3 = price_display [of pf0 "''https://api''" "JObj [(''title'', JStr ''Brinde'')]" _ 1, THEN mp, OF m]
  note w4 = price_display [of pf0 "''https://api''" "JObj [(''price_cents'', JNum 0)]" _ 1, THEN mp, OF m]
  have "priceCell pf0 (buildProduct pf0 ''https://api'' (JObj [(''title'', JStr ''Caneca''), (''price_cents'', JNum 1250)]))
     = ''R$ 12.50''"
    using w1 by (simp add: s digitChar_def)
  moreover have "priceCell pf0 (buildProduct pf0 ''https://api'' (JObj [(''price_cents'', JNum (- 1250))])) = ''R$ -12.50''"
    using w2 by (simp add: s digitChar_def)
  moreover have "priceCell pf0 (buildProduct pf0 ''https://api'' (JObj [(''title'', JStr ''Brinde'')])) = ''R$ 0.00''"
    using w3 by simp
  moreover have "priceCell pf0 (buildProduct pf0 ''https://api'' (JObj [(''price_cents'', JNum 0)])) = ''R$ 0.00''"
    using w4 by simp
  ultimately show ?thesis by (intro conjI)
qed

text \<open>
  Claim C5 as stated fails, for not every item has such a price.  One cent above the bound the
  quotient \<open>70368744177664.01\<close> is not a double, the nearest one is \<open>70368744177664.015625\<close>,
  and the cell shows one cent more.  A \<^verbatim>\<open>price_cents\<close> that is text and not a number gives
  \<^verbatim>\<open>R$ NaN\<close> on a platform that reads no number in it.
\<close>

theorem price_display_counterexample:
  "map (priceCell pf0)
     (fetchProducts pf0 ''https://api''
        (Response True (Some (JObj [(''items'',
           JArr [JObj [(''price_cents'', JNum 7036874417766401)],
                 JObj [(''price_cents'', JStr ''abc'')]])]))) [])
   = [''R$ 70368744177664.02'', ''R$ NaN'']"
proof -
  have d: "divBy100 (Fin 7036874417766401) = Fin (4503599627370497 / 64)" by code_simp
  have f: "fixed2 (4503599627370497 / 64) = ''70368744177664.02''" by code_simp
  have "priceCell pf0 (buildProduct pf0 ''https://api'' (JObj [(''price_cents'', JNum 7036874417766401)]))
     = ''R$ 70368744177664.02''"
    by (simp add: priceCell_def buildProduct_def Let_def toNumber_def d toFixed2_def f)
  moreover have "priceCell pf0 (buildProduct pf0 ''https://api'' (JObj [(''price_cents'', JStr ''abc'')])) = ''R$ NaN''"
    by (simp add: priceCell_def buildProduct_def Let_def toNumber_def toFixed2_def pf0_def divBy100_def)
  ultimately show ?thesis
    by (simp add: fetchProducts_def productsOf_def mkProduct_def jsOr_def)
qed

section \<open>The round trip between cents and reais\<close>

lemma digit_cases: "0 \<le> (d::int) \<Longrightarrow> d < 10 \<Longrightarrow> d \<in> {0, 1, 2, 3, 4, 5, 6, 7, 8, 9}"
  by (simp only: insert_iff empty_iff) arith

lemma digitChar_digit:
  assumes "0 \<le> d" "d < 10"
  shows "isDigit (digitChar d)" and "digitVal (digitChar d) = d"
    and "digitChar d \<noteq> CHR ''.''" and "digitChar d \<noteq> CHR '',''" and "\<not> isWhiteSpace (digitChar d)"
    and "digitChar d \<noteq> CHR ''+''" and "digitChar d \<noteq> CHR ''-''" and "digitChar d \<noteq> CHR ''I''"
  using digit_cases[OF assms]
  by (auto simp: digitChar_def isDigit_def digitVal_def isWhiteSpace_def)

lemma showNat_nonempty: "showNat n \<noteq> []"
  by (subst showNat.simps) simp

lemma showNat_digits: "0 \<le> n \<Longrightarrow> c \<in> set (showNat n) \<Longrightarrow> isDigit c"
proof (induction n arbitrary: c rule: showNat.induct)
  case (1 n)
  show ?case
  proof (cases "n < 10")
    case True
    with 1 show ?thesis by (subst (asm) (2) showNat.simps) (simp add: digitChar_digit)
  next
    case False
    have m: "0 \<le> n mod 10" "n mod 10 < 10" by simp_all
    have d: "0 \<le> n div 10" using False by simp
    from "1.prems"(2) False have "c \<in> set (showNat (n div 10)) \<or> c = digitChar (n mod 10)"
      by (subst (asm) showNat.simps) auto
    then show ?thesis
      using "1.IH"[OF False d] digitChar_digit(1)[OF m] by auto
  qed
qed

lemma digitsVal_snoc: "digitsVal (ds @ [c]) = 10 * digitsVal ds + digitVal c"
  by (simp add: digitsVal_def)

lemma digitsVal_showNat: "0 \<le> n \<Longrightarrow> digitsVal (showNat n) = n"
proof (induction n rule: showNat.induct)
  case (1 n)
  show ?case
  proof (cases "n < 10")
    case True
    with 1 show ?thesis
      by (subst showNat.simps) (simp add: digitsVal_def digitChar_digit)
  next
    case False
    have m: "0 \<le> n mod 10" "n mod 10 < 10" by simp_all
    have d: "0 \<le> n div 10" using False by simp
    have "digitsVal (showNat n) = 10 * digitsVal (showNat (n div 10)) + digitVal (digitChar (n mod 10))"
      using False by (subst showNat.simps) (simp add: digitsVal_snoc)
    also have "\<dots> = 10 * (n div 10) + n mod 10"
      using "1.IH"[OF False d] digitChar_digit(2)[OF m] by simp
    finally show ?thesis by simp
  qed
qed

lemma replaceFirst_at:
  "a \<notin> set ds \<Longrightarrow> replaceFirst a b (ds @ a # rest) = ds @ b # rest"
  by (induction ds) (auto simp: replaceFirst_def split: list.splits)

lemma trim_id:
  assumes "\<not> isWhiteSpace c" "\<not> isWhiteSpace d"
  shows "trim (c # mid @ [d]) = c # mid @ [d]"
  using assms by (simp add: trim_def)

lemma takeWhile_digits:
  "(\<And>x. x \<in> set ds \<Longrightarrow> isDigit x) \<Longrightarrow> \<not> isDigit y \<Longrightarrow>
   takeWhile isDigit (ds @ y # rest) = ds \<and> dropWhile isDigit (ds @ y # rest) = y # rest"
  by (simp add: takeWhile_tail dropWhile_append3)

lemma takeWhile_all_digits:
  "(\<And>x. x \<in> set ds \<Longrightarrow> isDigit x) \<Longrightarrow> takeWhile isDigit ds = ds \<and> dropWhile isDigit ds = []"
  by (simp add: takeWhile_eq_all_conv)

lemma dot_not_digit: "\<not> isDigit (CHR ''.'')" "\<not> isDigit (CHR '','')"
  by (simp_all add: isDigit_def)

lemma parseUnsigned_decimal:
  assumes ds: "\<And>x. x \<in> set ds \<Longrightarrow> isDigit x" and ne: "ds \<noteq> []"
    and fs: "isDigit a" "isDigit b"
  shows "parseUnsigned (ds @ CHR ''.'' # [a, b])
         = Some (of_int (digitsVal ds) + of_int (10 * digitVal a + digitVal b) / 100)"
proof -
  have t1: "takeWhile isDigit (ds @ CHR ''.'' # [a, b]) = ds"
    and d1: "dropWhile isDigit (ds @ CHR ''.'' # [a, b]) = CHR ''.'' # [a, b]"
    using takeWhile_digits[of ds "CHR ''.''" "[a, b]"] ds dot_not_digit by auto
  have t2: "takeWhile isDigit [a, b] = [a, b]" and d2: "dropWhile isDigit [a, b] = []"
    using fs by simp_all
  have v: "digitsVal [a, b] = 10 * digitVal a + digitVal b" by (simp add: digitsVal_def)
  show ?thesis
    unfolding parseUnsigned_def t1 d1 Let_def
    using ne fs by (simp add: v parseExponent_def)
qed

lemma parseFloat_decimal:
  assumes ds: "\<And>x. x \<in> set ds \<Longrightarrow> isDigit x" and ne: "ds \<noteq> []"
    and fs: "isDigit a" "isDigit b"
  shows "parseFloat (ds @ CHR ''.'' # [a, b])
         = roundDouble (of_int (digitsVal ds) + of_int (10 * digitVal a + digitVal b) / 100)"
proof -
  obtain c cs where c: "ds = c # cs" using ne by (cases ds) auto
  then have dc: "isDigit c" using ds by simp
  then have nw: "\<not> isWhiteSpace c" "c \<noteq> CHR ''+''" "c \<noteq> CHR ''-''" "c \<noteq> CHR ''I''"
    by (auto simp: isDigit_def isWhiteSpace_def)
  have "parseFloat (ds @ CHR ''.'' # [a, b]) = parseMagnitude (ds @ CHR ''.'' # [a, b])"
    using nw by (simp add: parseFloat_def c)
  also have "\<dots> = roundDouble (of_int (digitsVal ds) + of_int (10 * digitVal a + digitVal b) / 100)"
    using nw(4) parseUnsigned_decimal[OF ds ne fs] by (simp add: parseMagnitude_def c)
  finally show ?thesis .
qed

lemma cents_digits:
  fixes c :: int
  assumes "0 \<le> c"
  shows "of_int (c div 100) + of_int (10 * (c div 10 mod 10) + c mod 10) / 100 = (of_int c / 100 :: rat)"
proof -
  have "c mod (10 * 10) = 10 * (c div 10 mod 10) + c mod 10" by (rule zmod_zmult2_eq) simp
  then have "c mod 100 = 10 * (c div 10 mod 10) + c mod 10" by simp
  moreover have "c = 100 * (c div 100) + c mod 100" by simp
  ultimately have "c = 100 * (c div 100) + (10 * (c div 10 mod 10) + c mod 10)" by simp
  then have "(of_int c :: rat) = of_int (100 * (c div 100) + (10 * (c div 10 mod 10) + c mod 10))"
    by simp
  then show ?thesis by (simp add: field_simps)
qed

lemma reais_string:
  fixes c :: int
  assumes "0 \<le> c"
  defines "S \<equiv> showNat (c div 100) @ CHR '','' # [digitChar (c div 10 mod 10), digitChar (c mod 10)]"
  shows "trim S = S" and "S \<noteq> []"
    and "parseFloat (replaceFirst (CHR '','') (CHR ''.'') (filter (\<lambda>x. x \<noteq> CHR ''.'') S))
         = roundDouble (of_int c / 100)"
proof -
  let ?q = "c div 100" and ?a = "digitChar (c div 10 mod 10)" and ?b = "digitChar (c mod 10)"
  have q: "0 \<le> ?q" using assms(1) by simp
  have ra: "0 \<le> c div 10 mod 10" "c div 10 mod 10 < 10" by simp_all
  have rb: "0 \<le> c mod 10" "c mod 10 < 10" by simp_all
  have dq: "\<And>x. x \<in> set (showNat ?q) \<Longrightarrow> isDigit x" using showNat_digits[OF q] by blast
  obtain c0 cs where c0: "showNat ?q = c0 # cs"
    using showNat_nonempty[of ?q] by (cases "showNat ?q") auto
  have "isDigit c0" using dq c0 by simp
  then have w0: "\<not> isWhiteSpace c0" by (auto simp: isDigit_def isWhiteSpace_def)
  have "trim (c0 # (cs @ [CHR '','', ?a]) @ [?b]) = c0 # (cs @ [CHR '','', ?a]) @ [?b]"
    using w0 digitChar_digit(5)[OF rb] by (rule trim_id)
  then show "trim S = S" by (simp add: S_def c0)
  show "S \<noteq> []" by (simp add: S_def)
  have nodot: "\<And>x. x \<in> set (showNat ?q) \<Longrightarrow> x \<noteq> CHR ''.'' \<and> x \<noteq> CHR '',''"
    using dq dot_not_digit by auto
  have f1: "filter (\<lambda>x. x \<noteq> CHR ''.'') S = S"
    unfolding filter_id_conv S_def
    using nodot digitChar_digit(3)[OF ra] digitChar_digit(3)[OF rb] by auto
  have f2: "replaceFirst (CHR '','') (CHR ''.'') S = showNat ?q @ CHR ''.'' # [?a, ?b]"
    unfolding S_def using nodot by (intro replaceFirst_at) auto
  have f3: "parseFloat (showNat ?q @ CHR ''.'' # [?a, ?b])
      = roundDouble (of_int (digitsVal (showNat ?q)) + of_int (10 * digitVal ?a + digitVal ?b) / 100)"
    using dq showNat_nonempty digitChar_digit(1)[OF ra] digitChar_digit(1)[OF rb]
    by (intro parseFloat_decimal)
  have val: "of_int (digitsVal (showNat ?q)) + of_int (10 * digitVal ?a + digitVal ?b) / 100
      = (of_int c / 100 :: rat)"
    by (simp only: digitsVal_showNat[OF q] digitChar_digit(2)[OF ra] digitChar_digit(2)[OF rb]
        cents_digits[OF assms(1)])
  show "parseFloat (replaceFirst (CHR '','') (CHR ''.'') (filter (\<lambda>x. x \<noteq> CHR ''.'') S))
         = roundDouble (of_int c / 100)"
    by (simp only: f1 f2 f3 val)
qed

lemma centsToReais_string:
  fixes c :: int
  assumes "0 < c" "c \<le> 7036874417766400"
  shows "centsToReais pf (JNum (of_int c))
         = showNat (c div 100) @ CHR '','' # [digitChar (c div 10 mod 10), digitChar (c mod 10)]"
proof -
  have q: "0 \<le> c div 100" using assms(1) by simp
  have nodot: "CHR ''.'' \<notin> set (showNat (c div 100))"
    using showNat_digits[OF q] dot_not_digit by blast
  have "centsToReais pf (JNum (of_int c))
        = replaceFirst (CHR ''.'') (CHR '','') (toFixed2 pf (divBy100 (Fin (of_int c))))"
    using assms(1) by (simp add: centsToReais_def toNumber_def isNaN_def)
  also have "\<dots> = replaceFirst (CHR ''.'') (CHR '','')
      (showNat (c div 100) @ CHR ''.'' # [digitChar (c div 10 mod 10), digitChar (c mod 10)])"
    by (simp add: toFixed2_cents[OF assms])
  also have "\<dots> = showNat (c div 100) @ CHR '','' # [digitChar (c div 10 mod 10), digitChar (c mod 10)]"
    using nodot by (rule replaceFirst_at)
  finally show ?thesis .
qed

text \<open>
  On the text \<^verbatim>\<open>centsToReais\<close> writes, \<^verbatim>\<open>reaisToCents\<close> reads the quotient back, multiplies
  it by 100 and rounds.
\<close>

lemma roundtrip_via:
  fixes c :: int
  assumes "0 < c" "c \<le> 7036874417766400"
  shows "reaisToCents pf (JStr (centsToReais pf (JNum (of_int c))))
         = mathRound (times100 (roundDouble (of_int c / 100)))"
proof -
  let ?S = "showNat (c div 100) @ CHR '','' # [digitChar (c div 10 mod 10), digitChar (c mod 10)]"
  have c0: "0 \<le> c" using assms(1) by simp
  obtain v where v: "roundDouble (of_int c / 100) = Fin v" "0 < v"
    using cents_div_rounds_back[OF assms] by blast
  have "reaisToCents pf (JStr ?S) = mathRound (times100 (Fin v))"
    using reais_string[OF c0] v
    by (simp add: reaisToCents_def Let_def isNaN_def lessThanZero_def)
  then show ?thesis by (simp only: centsToReais_string[OF assms] v(1))
qed

text \<open>
  Below \<open>100 * 2 ^ 45\<close> cents the quotient is within \<open>100 * 2 powi (- 9)\<close> of a cent of the
  amount, its product by 100 is below \<open>2 ^ 52\<close> and so rounded by at most a quarter: less
  than half a cent in all.
\<close>

lemma times100_rounds_back:
  fixes c :: int
  assumes "0 < c" "c < 3518437208883200"
    and v: "\<bar>v * 100 - of_int c\<bar> \<le> 100 * 2 powi (45 - 54)"
  shows "mathRound (times100 (Fin v)) = Fin (of_int c)"
proof -
  define d :: rat where "d = 100 * 2 powi (45 - 54)"
  have d: "d = 25 / 128" unfolding d_def by (simp add: power_int_minus)
  have c1: "(1::rat) \<le> of_int c" using assms(1) by simp
  have "c \<le> 3518437208883200 - 1" using assms(2) by simp
  then have "(of_int c :: rat) \<le> of_int (3518437208883200 - 1)" by (simp only: of_int_le_iff)
  then have c2: "(of_int c :: rat) \<le> 3518437208883199" by simp
  have v1: "v * 100 - of_int c \<le> d" and v2: "- d \<le> v * 100 - of_int c"
    using v unfolding d_def[symmetric] by (simp_all only: abs_le_iff) linarith+
  have lo: "1 / 100 \<le> v * 100" using v2 c1 d by linarith
  have "v * 100 \<le> 3518437208883199 + 25 / 128" using v1 c2 d by linarith
  moreover have "(3518437208883199::rat) + 25 / 128 < 2 powi 52" by simp
  ultimately have hi: "v * 100 < 2 powi 52" by linarith
  obtain w where w: "roundDouble (v * 100) = Fin w" "\<bar>w - v * 100\<bar> \<le> 2 powi (52 - 54)"
    using roundDouble_below[OF small_is_normal[OF lo] hi] by auto
  define e :: rat where "e = 2 powi (52 - 54)"
  have e: "e = 1 / 4" unfolding e_def by (simp add: power_int_minus)
  have "w - v * 100 \<le> e" and "- e \<le> w - v * 100"
    using w(2) unfolding e_def[symmetric] by (simp_all only: abs_le_iff) linarith+
  then have "\<bar>w - of_int c\<bar> < 1 / 2" using v1 v2 d e by (simp only: abs_less_iff) linarith
  then have "\<lfloor>w + 1 / 2\<rfloor> = c" by (rule floor_half_unique)
  then show ?thesis by (simp add: times100_def mathRound_def w(1))
qed

text \<open>The two amounts from \<open>100 * 2 ^ 45\<close> cents on that still come back.\<close>

lemma roundtrip_top:
  "mathRound (times100 (roundDouble (of_int 3518437208883200 / 100))) = Fin (of_int 3518437208883200)"
  "mathRound (times100 (roundDouble (of_int 3518437208883201 / 100))) = Fin (of_int 3518437208883201)"
  by code_simp+

lemma roundtrip_pos:
  fixes c :: int
  assumes "0 < c" "c \<le> 3518437208883201"
  shows "reaisToCents pf (JStr (centsToReais pf (JNum (of_int c)))) = Fin (of_int c)"
proof -
  have le: "c \<le> 7036874417766400" using assms(2) by simp
  consider "c = 3518437208883200" | "c = 3518437208883201" | "c < 3518437208883200"
    using assms(2) by linarith
  then have "mathRound (times100 (roundDouble (of_int c / 100))) = Fin (of_int c)"
  proof cases
    case 1
    show ?thesis unfolding 1 by (rule roundtrip_top(1))
  next
    case 2
    show ?thesis unfolding 2 by (rule roundtrip_top(2))
  next
    case 3
    then have "c \<le> 3518437208883200 - 1" by simp
    then have "(of_int c :: rat) \<le> of_int (3518437208883200 - 1)" by (simp only: of_int_le_iff)
    then have lt: "(of_int c :: rat) < 100 * 2 powi 45" by simp
    obtain v where v: "roundDouble (of_int c / 100) = Fin v"
        "\<bar>v * 100 - of_int c\<bar> \<le> 100 * 2 powi (45 - 54)"
      using cents_div_below[OF assms(1) lt] by auto
    show ?thesis unfolding v(1) using assms(1) 3 v(2) by (rule times100_rounds_back)
  qed
  then show ?thesis by (simp only: roundtrip_via[OF assms(1) le])
qed

lemma roundtrip_zero: "reaisToCents pf (JStr (centsToReais pf (JNum 0))) = Fin 0"
proof -
  have s: "centsToReais pf (JNum 0) = ''0,00''" by (simp add: centsToReais_def)
  have "showNat 0 = ''0''" by (simp add: showNat.simps digitChar_def)
  then have "reaisToCents pf (JStr ''0,00'') = mathRound (times100 (Fin 0))"
    using reais_string[of 0]
    by (simp add: reaisToCents_def Let_def isNaN_def lessThanZero_def digitChar_def)
  also have "\<dots> = Fin 0"
  proof -
    have "\<lfloor>(0::rat) + 1 / 2\<rfloor> = 0" by (rule floor_unique) simp_all
    then show ?thesis by (simp add: times100_def mathRound_def)
  qed
  finally show ?thesis by (simp only: s)
qed

subsection \<open>What reaisToCents returns\<close>

text \<open>
  The text \<^verbatim>\<open>reaisToCents\<close> hands to \<^verbatim>\<open>parseFloat\<close>: the input as a string, trimmed, every
  point removed, the first comma turned into a point; and the number read from it.
\<close>

definition reaisText :: "platform \<Rightarrow> json \<Rightarrow> string" where
  "reaisText pf v =
     replaceFirst (CHR '','') (CHR ''.'') (filter (\<lambda>c. c \<noteq> CHR ''.'') (trim (toStr pf v)))"

definition reaisNumber :: "platform \<Rightarrow> json \<Rightarrow> jsnum" where
  "reaisNumber pf v = parseFloat (reaisText pf v)"

text \<open>
  The texts \<^verbatim>\<open>parseFloat\<close> reads a number from, once blanks and one sign are skipped: those
  that begin with a digit, with a point and a digit, or with the word \<^verbatim>\<open>Infinity\<close>.
\<close>

definition startsNumber :: "string \<Rightarrow> bool" where
  "startsNumber r \<longleftrightarrow>
     prefix ''Infinity'' r
     \<or> (case r of
          [] \<Rightarrow> False
        | c # r1 \<Rightarrow> isDigit c \<or> (c = CHR ''.'' \<and> (case r1 of [] \<Rightarrow> False | d # r2 \<Rightarrow> isDigit d)))"

definition unsignedPart :: "string \<Rightarrow> string" where
  "unsignedPart s =
     (case dropWhile isWhiteSpace s of
        [] \<Rightarrow> []
      | c # r \<Rightarrow> if c = CHR ''+'' \<or> c = CHR ''-'' then r else c # r)"

lemma roundDouble_not_NaN: "roundDouble x \<noteq> NaN"
  by (simp add: roundDouble_def Let_def)

lemma parseUnsigned_None: "parseUnsigned r = None \<longleftrightarrow>
    \<not> (case r of [] \<Rightarrow> False
        | c # r1 \<Rightarrow> isDigit c \<or> (c = CHR ''.'' \<and> (case r1 of [] \<Rightarrow> False | d # r2 \<Rightarrow> isDigit d)))"
proof (cases r)
  case Nil
  then show ?thesis by (simp add: parseUnsigned_def)
next
  case (Cons c r1)
  show ?thesis
  proof (cases "isDigit c")
    case True
    then show ?thesis by (simp add: parseUnsigned_def Cons Let_def)
  next
    case False
    then show ?thesis
      by (cases r1) (auto simp: parseUnsigned_def Cons Let_def)
  qed
qed

lemma parseMagnitude_NaN: "parseMagnitude r = NaN \<longleftrightarrow> \<not> startsNumber r"
  using parseUnsigned_None[of r]
  by (auto simp: parseMagnitude_def startsNumber_def roundDouble_not_NaN split: option.splits)

lemma negNum_NaN: "negNum x = NaN \<longleftrightarrow> x = NaN"
  by (cases x) (simp_all add: negNum_def)

lemma parseFloat_NaN: "parseFloat s = NaN \<longleftrightarrow> \<not> startsNumber (unsignedPart s)"
proof (cases "dropWhile isWhiteSpace s")
  case Nil
  show ?thesis unfolding parseFloat_def unsignedPart_def Nil by (simp add: startsNumber_def)
next
  case (Cons c r)
  show ?thesis
    unfolding parseFloat_def unsignedPart_def Cons by (simp add: parseMagnitude_NaN negNum_NaN)
qed

lemma roundHalfEven_nonneg: "0 \<le> y \<Longrightarrow> 0 \<le> roundHalfEven y"
  by (simp add: roundHalfEven_def Let_def)

lemma roundDouble_nonneg:
  assumes "0 \<le> x"
  shows "roundDouble x = PosInf \<or> (\<exists>w. 0 \<le> w \<and> roundDouble x = Fin w)"
proof (cases "x = 0")
  case True
  then show ?thesis by simp
next
  case False
  with assms have pos: "0 < x" by simp
  let ?q = "max (ilog2 x - 52) (- 1074)"
  have "0 \<le> x / 2 powi ?q" using pos by simp
  then have "0 \<le> roundHalfEven (x / 2 powi ?q)" by (rule roundHalfEven_nonneg)
  then have "(0::rat) \<le> of_int (roundHalfEven (x / 2 powi ?q)) * 2 powi ?q" by simp
  then show ?thesis
    using pos by (simp add: roundDouble_def Let_def del: power_int_numeral)
qed

lemma reaisToCents_range:
  "reaisToCents pf v = PosInf \<or> (\<exists>k. 0 \<le> k \<and> reaisToCents pf v = Fin (of_int k))"
proof -
  have zero: "\<exists>k. 0 \<le> k \<and> Fin 0 = Fin (rat_of_int k)" by (rule exI[of _ 0]) simp
  have rounded: "mathRound (times100 n) = PosInf \<or> (\<exists>k. 0 \<le> k \<and> mathRound (times100 n) = Fin (of_int k))"
    if n: "\<not> isNaN n" "\<not> lessThanZero n" for n
  proof (cases n)
    case (Fin a)
    with n(2) have "0 \<le> a * 100" by (simp add: lessThanZero_def)
    then consider "roundDouble (a * 100) = PosInf" | w where "0 \<le> w" "roundDouble (a * 100) = Fin w"
      using roundDouble_nonneg by blast
    then show ?thesis
    proof cases
      case 1
      then show ?thesis by (simp add: Fin times100_def mathRound_def)
    next
      case 2
      then have "0 \<le> \<lfloor>w + 1 / 2\<rfloor>" by simp
      then show ?thesis using 2(2) by (auto simp: Fin times100_def mathRound_def)
    qed
  next
    case PosInf
    then show ?thesis by (simp add: times100_def mathRound_def)
  next
    case NegInf
    with n(2) show ?thesis by (simp add: lessThanZero_def)
  next
    case NaN
    with n(1) show ?thesis by (simp add: isNaN_def)
  qed
  show ?thesis
    using zero rounded[of "reaisNumber pf v"]
    by (auto simp: reaisToCents_def Let_def reaisNumber_def reaisText_def)
qed

text \<open>No number can be read: the result is 0.\<close>

lemma reaisToCents_no_number:
  assumes "\<not> startsNumber (unsignedPart (reaisText pf v))"
  shows "reaisToCents pf v = Fin 0"
proof -
  have "parseFloat (reaisText pf v) = NaN" using assms by (simp add: parseFloat_NaN)
  then show ?thesis
    by (simp add: reaisToCents_def Let_def reaisText_def isNaN_def)
qed

text \<open>A text that starts with a minus sign: what follows is read as a magnitude, and the result is 0.\<close>

lemma digitsVal_nonneg: "0 \<le> digitsVal ds"
proof -
  have "0 \<le> acc \<Longrightarrow> 0 \<le> foldl (\<lambda>acc c. 10 * acc + digitVal c) acc ds" for acc
  proof (induction ds arbitrary: acc)
    case Nil
    then show ?case by simp
  next
    case (Cons d ds)
    have "0 \<le> digitVal d" by (auto simp: digitVal_def split: option.splits)
    with Cons.prems have "0 \<le> 10 * acc + digitVal d" by simp
    then show ?case using Cons.IH by simp
  qed
  then show ?thesis by (simp add: digitsVal_def)
qed

lemma parseUnsigned_nonneg: "parseUnsigned r = Some x \<Longrightarrow> 0 \<le> x"
  by (auto simp: parseUnsigned_def Let_def digitsVal_nonneg split: if_splits)

lemma parseMagnitude_nonneg:
  "parseMagnitude r = NaN \<or> parseMagnitude r = PosInf \<or> (\<exists>w. 0 \<le> w \<and> parseMagnitude r = Fin w)"
proof (cases "parseUnsigned r")
  case None
  then show ?thesis by (simp add: parseMagnitude_def)
next
  case (Some x)
  then have "0 \<le> x" by (rule parseUnsigned_nonneg)
  then show ?thesis using roundDouble_nonneg[of x] Some by (auto simp: parseMagnitude_def)
qed

lemma replaceFirst_Cons:
  assumes "a \<noteq> c"
  shows "replaceFirst a b (c # s) = c # replaceFirst a b s"
proof -
  have d: "dropWhile (\<lambda>x. x \<noteq> a) (c # s) = dropWhile (\<lambda>x. x \<noteq> a) s"
    and t: "takeWhile (\<lambda>x. x \<noteq> a) (c # s) = c # takeWhile (\<lambda>x. x \<noteq> a) s"
    using assms by auto
  show ?thesis
  proof (cases "dropWhile (\<lambda>x. x \<noteq> a) s")
    case Nil
    show ?thesis unfolding replaceFirst_def d t Nil by simp
  next
    case (Cons x xs)
    show ?thesis unfolding replaceFirst_def d t Cons by simp
  qed
qed

lemma trim_hd:
  assumes "trim s = c0 # rest"
  shows "\<not> isWhiteSpace c0"
proof -
  define u where "u = dropWhile isWhiteSpace s"
  have "rev u = takeWhile isWhiteSpace (rev u) @ dropWhile isWhiteSpace (rev u)" by simp
  then have "rev (rev u) = rev (takeWhile isWhiteSpace (rev u) @ dropWhile isWhiteSpace (rev u))"
    by (rule arg_cong)
  then have "u = rev (dropWhile isWhiteSpace (rev u)) @ rev (takeWhile isWhiteSpace (rev u))"
    by (simp only: rev_rev_ident rev_append)
  then have "u = (c0 # rest) @ rev (takeWhile isWhiteSpace (rev u))"
    using assms by (simp add: trim_def u_def)
  then have "u \<noteq> []" and "hd u = c0" by (cases u; simp)+
  then show ?thesis using hd_dropWhile[of isWhiteSpace s] by (simp add: u_def)
qed

lemma reaisToCents_minus:
  assumes "trim (toStr pf v) = CHR ''-'' # rest"
  shows "reaisToCents pf v = Fin 0"
proof -
  define r where "r = replaceFirst (CHR '','') (CHR ''.'') (filter (\<lambda>c. c \<noteq> CHR ''.'') rest)"
  have t: "replaceFirst (CHR '','') (CHR ''.'') (filter (\<lambda>c. c \<noteq> CHR ''.'') (trim (toStr pf v)))
      = CHR ''-'' # r"
    by (simp add: assms r_def replaceFirst_Cons)
  have p: "parseFloat (CHR ''-'' # r) = negNum (parseMagnitude r)"
    by (simp add: parseFloat_def isWhiteSpace_def)
  have z: "mathRound (times100 (Fin 0)) = Fin 0"
  proof -
    have "\<lfloor>(0::rat) + 1 / 2\<rfloor> = 0" by (rule floor_unique) simp_all
    then show ?thesis by (simp add: times100_def mathRound_def)
  qed
  have v: "v \<noteq> JNull" "v \<noteq> JUndefined"
    using assms by (auto simp: trim_def isWhiteSpace_def)
  have ne: "trim (toStr pf v) \<noteq> []" using assms by simp
  consider "parseMagnitude r = NaN" | "parseMagnitude r = PosInf"
    | w where "0 \<le> w" "parseMagnitude r = Fin w"
    using parseMagnitude_nonneg[of r] by blast
  then have "(let num = negNum (parseMagnitude r)
              in if isNaN num \<or> lessThanZero num then Fin 0 else mathRound (times100 num)) = Fin 0"
  proof cases
    case 1
    then show ?thesis by (simp add: negNum_def isNaN_def)
  next
    case 2
    then show ?thesis by (simp add: negNum_def isNaN_def lessThanZero_def)
  next
    case 3
    then show ?thesis using z by (cases "w = 0") (simp_all add: negNum_def isNaN_def lessThanZero_def)
  qed
  then show ?thesis
    using v ne by (simp add: reaisToCents_def Let_def t p)
qed

text \<open>
  Claim C9, as amended.  For every whole number of cents \<open>c\<close> with
  \<open>0 \<le> c \<le> 3518437208883201\<close> (that is \<open>100 * 2 ^ 45 + 1\<close>),
  \<^verbatim>\<open>reaisToCents(centsToReais(c))\<close> is \<open>c\<close>.  For every input, whenever the result of
  \<^verbatim>\<open>reaisToCents\<close> is finite it is a non-negative integer.  The result is 0 when the input is
  null, undefined or blank; when its text, trimmed, starts with a minus sign; and when the text
  handed to \<^verbatim>\<open>parseFloat\<close> (the trimmed text with every point removed and the first comma
  turned into a point) does not begin, after blanks and an optional sign, with a number, that
  is with a digit, with a point and a digit, or with the word \<^verbatim>\<open>Infinity\<close>; so it is 0 when
  the trimmed text starts with any character other than a digit, a sign, a point, a comma or
  the letter \<^verbatim>\<open>I\<close>.
\<close>

theorem cents_roundtrip:
  "(0 \<le> c \<and> c \<le> 3518437208883201 \<longrightarrow>
      reaisToCents pf (JStr (centsToReais pf (JNum (of_int c)))) = Fin (of_int c))
   \<and> (reaisToCents pf v \<noteq> PosInf \<longrightarrow> (\<exists>k. 0 \<le> k \<and> reaisToCents pf v = Fin (of_int k)))
   \<and> (v = JNull \<or> v = JUndefined \<or> trim (toStr pf v) = [] \<longrightarrow> reaisToCents pf v = Fin 0)
   \<and> (trim (toStr pf v) = CHR ''-'' # rest \<longrightarrow> reaisToCents pf v = Fin 0)
   \<and> (\<not> startsNumber (unsignedPart (reaisText pf v)) \<longrightarrow> reaisToCents pf v = Fin 0)
   \<and> (trim (toStr pf v) = c0 # rest \<and> c0 \<notin> set ''0123456789+-.,I'' \<longrightarrow> reaisToCents pf v = Fin 0)"
proof (intro conjI impI)
  assume "0 \<le> c \<and> c \<le> 3518437208883201"
  then show "reaisToCents pf (JStr (centsToReais pf (JNum (of_int c)))) = Fin (of_int c)"
    using roundtrip_pos[of c pf] roundtrip_zero[of pf] by (cases "c = 0") auto
next
  assume "reaisToCents pf v \<noteq> PosInf"
  then show "\<exists>k. 0 \<le> k \<and> reaisToCents pf v = Fin (of_int k)"
    using reaisToCents_range[of pf v] by blast
next
  assume "v = JNull \<or> v = JUndefined \<or> trim (toStr pf v) = []"
  then show "reaisToCents pf v = Fin 0"
    by (auto simp: reaisToCents_def Let_def)
next
  assume "trim (toStr pf v) = CHR ''-'' # rest"
  then show "reaisToCents pf v = Fin 0" by (rule reaisToCents_minus)
next
  assume "\<not> startsNumber (unsignedPart (reaisText pf v))"
  then show "reaisToCents pf v = Fin 0" by (rule reaisToCents_no_number)
next
  assume a: "trim (toStr pf v) = c0 # rest \<and> c0 \<notin> set ''0123456789+-.,I''"
  have "\<not> isWhiteSpace c0" using a trim_hd by blast
  define r where "r = replaceFirst (CHR '','') (CHR ''.'') (filter (\<lambda>c. c \<noteq> CHR ''.'') rest)"
  have ne: "CHR '','' \<noteq> c0" "c0 \<noteq> CHR ''.''" using a by auto
  have "reaisText pf v = replaceFirst (CHR '','') (CHR ''.'') (c0 # filter (\<lambda>c. c \<noteq> CHR ''.'') rest)"
    using a ne(2) by (simp add: reaisText_def)
  then have t: "reaisText pf v = c0 # r"
    by (simp only: r_def replaceFirst_Cons[OF ne(1)])
  have "\<not> startsNumber (unsignedPart (reaisText pf v))"
    using a \<open>\<not> isWhiteSpace c0\<close> by (auto simp: t unsignedPart_def startsNumber_def isDigit_def)
  then show "reaisToCents pf v = Fin 0" by (rule reaisToCents_no_number)
qed

theorem cents_roundtrip_witness:
  "reaisToCents pf0 (JStr (centsToReais pf0 (JNum 1250))) = Fin 1250
   \<and> reaisToCents pf0 JNull = Fin 0
   \<and> reaisToCents pf0 (JStr ''  '') = Fin 0
   \<and> reaisToCents pf0 (JStr ''-5'') = Fin 0
   \<and> \<not> startsNumber (unsignedPart (reaisText pf0 (JStr ''+,x'')))
   \<and> reaisToCents pf0 (JStr ''+,x'') = Fin 0
   \<and> reaisToCents pf0 (JStr ''abc'') = Fin 0"
proof -
  have t: "trim ''  '' = []" "trim ''-5'' = ''-5''" "trim ''abc'' = ''abc''" "trim ''+,x'' = ''+,x''"
    by (simp_all add: trim_def isWhiteSpace_def)
  have n: "\<not> startsNumber (unsignedPart (reaisText pf0 (JStr ''+,x'')))"
    by (simp add: reaisText_def t replaceFirst_def unsignedPart_def isWhiteSpace_def startsNumber_def
        isDigit_def)
  have "reaisToCents pf0 (JStr (centsToReais pf0 (JNum 1250))) = Fin 1250"
    using cents_roundtrip [of 1250 pf0 JNull "[]" "CHR ''a''", THEN conjunct1] by simp
  moreover have "reaisToCents pf0 JNull = Fin 0"
    using cents_roundtrip [of 1250 pf0 JNull "[]" "CHR ''a''"] by simp
  moreover have "reaisToCents pf0 (JStr ''  '') = Fin 0"
    using cents_roundtrip [of 1250 pf0 "JStr ''  ''" "[]" "CHR ''a''"] by (simp add: t)
  moreover have "reaisToCents pf0 (JStr ''-5'') = Fin 0"
    using cents_roundtrip [of 1250 pf0 "JStr ''-5''" "''5''" "CHR ''a''"] by (simp add: t)
  moreover have "reaisToCents pf0 (JStr ''+,x'') = Fin 0"
    using cents_roundtrip [of 1250 pf0 "JStr ''+,x''" "''5''" "CHR ''a''"] n by simp
  moreover have "reaisToCents pf0 (JStr ''abc'') = Fin 0"
    using cents_roundtrip [of 1250 pf0 "JStr ''abc''" "''bc''" "CHR ''a''"] by (simp add: t)
  ultimately show ?thesis using n by (intro conjI)
qed

text \<open>
  Claim C9 as stated fails for large amounts.  At \<open>3518437208883202\<close> cents the quotient
  \<open>35184372088832.02\<close> is not a double; the nearest one, \<open>35184372088832.0234375\<close>, is
  written \<^verbatim>\<open>35184372088832,02\<close> and read back as the same double, whose product by 100,
  \<open>3518437208883202.34375\<close>, is rounded to the double \<open>3518437208883202.5\<close>, and
  \<^verbatim>\<open>Math.round\<close> makes that one cent more.
\<close>

theorem cents_roundtrip_counterexample:
  "reaisToCents pf0 (JStr (centsToReais pf0 (JNum 3518437208883202))) = Fin 3518437208883203"
  by code_simp

text \<open>
  It fails for some inputs too: the guard of \<^verbatim>\<open>reaisToCents\<close> lets an infinite number
  through, and text after a number is ignored.
\<close>

lemma reaisToCents_Infinity: "reaisToCents pf0 (JStr ''Infinity'') = PosInf"
  by code_simp

lemma reaisToCents_trailing_text: "reaisToCents pf0 (JStr ''12abc'') = Fin 1200"
  by code_simp

end
